theory Spec2Isabelle
  imports Complex_Main "HOL-Library.Word" "HOL-Library.Signed_Division"
begin

section \<open>The sound core of renpysound\_core.c\<close>

text \<open>
  This theory embeds \<^verbatim>\<open>src/module/renpysound_core.c\<close>: the interpolator, the
  channel table, the mixer callback and the control functions \<^verbatim>\<open>RPS_*\<close>.

  Conventions of the embedding.
  \<^item> A C \<^verbatim>\<open>int\<close> or \<^verbatim>\<open>unsigned int\<close> is a \<open>32 word\<close>; \<open>sint\<close> reads it signed,
    \<open>unat\<close> unsigned. A \<^verbatim>\<open>short\<close> is a \<open>16 word\<close>.
  \<^item> A C \<^verbatim>\<open>float\<close> or \<^verbatim>\<open>double\<close> holds a real number. Every floating-point
    operation of the source computes the exact result and rounds it; the rounding
    function of \<^verbatim>\<open>float\<close> is the parameter \<open>rnd\<close> of the functions that compute with
    floats. Nothing is assumed about \<open>rnd\<close> unless a theorem says so. Infinities and
    NaN are outside the model.
  \<^item> A pointer that may be \<^verbatim>\<open>NULL\<close> is an \<open>option\<close>. A decoder (\<^verbatim>\<open>MediaState *\<close>)
    is owned by exactly one slot at a time, so the slot holds the decoder's state
    \<open>'ms\<close> by value.
  \<^item> A function below runs as one step, with no callback of the audio thread inside
    it. Where the source leaves room for the callback before it takes the audio lock
    and a claim depends on it, a second definition gives the call in that schedule
    (\<open>RPS_queue_interrupted\<close>).
\<close>

type_synonym c_int = "32 word"
type_synonym c_uint = "32 word"
type_synonym c_short = "16 word"
type_synonym c_float = real

subsection \<open>Error codes\<close>

definition SUCCESS :: c_int where "SUCCESS = 0"
definition SDL_ERROR :: c_int where "SDL_ERROR = - 1"
definition SOUND_ERROR :: c_int where "SOUND_ERROR = - 2"
definition RPS_ERROR :: c_int where "RPS_ERROR = - 3"

definition MAX_SHORT :: int where "MAX_SHORT = 32767"
definition MIN_SHORT :: int where "MIN_SHORT = - 32768"

subsection \<open>struct Interpolate\<close>

text \<open>The fields \<^verbatim>\<open>done\<close>, \<^verbatim>\<open>duration\<close>, \<^verbatim>\<open>start\<close>, \<^verbatim>\<open>end\<close>; the prefix avoids
  the keywords of Isabelle.\<close>

record Interpolate =
  i_done :: c_uint
  i_duration :: c_uint
  i_start :: c_float
  i_end :: c_float

definition init_interpolate :: "c_float \<Rightarrow> Interpolate" where
  "init_interpolate v = \<lparr> i_done = 0, i_duration = 0, i_start = v, i_end = v \<rparr>"

text \<open>\<^verbatim>\<open>start + (end - start) * done\<close> in float arithmetic: three rounded operations.\<close>

definition lerp :: "(real \<Rightarrow> real) \<Rightarrow> c_float \<Rightarrow> c_float \<Rightarrow> c_float \<Rightarrow> c_float" where
  "lerp rnd st en dn = rnd (st + rnd (rnd (en - st) * dn))"

text \<open>The conversion \<^verbatim>\<open>(float) u\<close> of an unsigned int.\<close>

definition uint_to_float :: "(real \<Rightarrow> real) \<Rightarrow> c_uint \<Rightarrow> c_float" where
  "uint_to_float rnd u = rnd (real (unat u))"

text \<open>\<^verbatim>\<open>get_interpolate\<close> takes a pointer to the interpolator: the model returns the
  value together with the interpolator as the call leaves it.\<close>

definition get_interpolate :: "(real \<Rightarrow> real) \<Rightarrow> Interpolate \<Rightarrow> c_float \<times> Interpolate" where
  "get_interpolate rnd i =
     (if i_done i \<ge> i_duration i then (i_end i, i)
      else (lerp rnd (i_start i) (i_end i)
              (rnd (uint_to_float rnd (i_done i) / uint_to_float rnd (i_duration i))), i))"

subsection \<open>struct Channel and the global state\<close>

record 'ms Channel =
  playing :: "'ms option"
  playing_name :: "string option"
  playing_fadein :: c_int
  playing_tight :: c_int
  playing_start_ms :: c_int
  playing_relative_volume :: c_float
  queued :: "'ms option"
  queued_name :: "string option"
  queued_fadein :: c_int
  queued_tight :: c_int
  queued_start_ms :: c_int
  queued_relative_volume :: c_float
  paused :: c_int
  mixer_volume :: c_float
  secondary_volume :: Interpolate
  pos :: c_int
  fade :: Interpolate
  stop_samples :: c_int
  event :: c_int
  pan :: Interpolate
  video :: c_int

text \<open>
  The globals of the file. \<open>channels\<close> holds the first \<^verbatim>\<open>num_channels\<close> entries of the
  C array, so \<^verbatim>\<open>num_channels\<close> is its length. \<open>freq\<close> is \<^verbatim>\<open>audio_spec.freq\<close>.
  \<open>dying\<close> is the linked list of retired decoders, newest first. Two logs record the
  calls that leave the file: \<open>events\<close> the types given to \<^verbatim>\<open>SDL_PushEvent\<close>, \<open>closed\<close>
  the decoders given to \<^verbatim>\<open>media_close\<close>, both oldest first.
\<close>

record 'ms rps =
  RPS_error :: c_int
  error_msg :: "string option"
  initialized :: c_int
  dying :: "'ms list"
  channels :: "'ms Channel list"
  freq :: c_int
  events :: "c_int list"
  closed :: "'ms list"

definition num_channels :: "'ms rps \<Rightarrow> nat" where
  "num_channels st = length (channels st)"

text \<open>The state of the process before any call: the initialisers of the globals.\<close>

definition initial_state :: "c_int \<Rightarrow> 'ms rps" where
  "initial_state fr = \<lparr> RPS_error = SUCCESS, error_msg = None, initialized = 0, dying = [],
     channels = [], freq = fr, events = [], closed = [] \<rparr>"

subsection \<open>The decoder\<close>

text \<open>
  The functions \<^verbatim>\<open>media_*\<close> are declared in the file and defined elsewhere. They are
  the fields of a record that every function calling the decoder takes as parameter
  \<open>D\<close>. A function that may change the decoder returns its new state.

  Modelled from the spec: \<^verbatim>\<open>media_read_audio\<close>, whose body is missing, returns the
  number of bytes it wrote into the buffer, from the start of the buffer, as whole
  16-bit samples (spec 6.2: \<^verbatim>\<open>read_audio(handle, out_bytes, out_capacity)\<close> gives
  \<^verbatim>\<open>bytes_written\<close>, 0 on end-of-stream). So the field gives, for a decoder and a
  capacity in bytes, the samples written; the returned count is twice their number.
\<close>

record ('ms, 'rw, 'surf) decoder =
  media_open :: "'rw \<Rightarrow> string \<Rightarrow> 'ms option"
  media_start_end :: "'ms \<Rightarrow> real \<Rightarrow> real \<Rightarrow> 'ms"
  media_want_video :: "'ms \<Rightarrow> c_int \<Rightarrow> 'ms"
  media_start :: "'ms \<Rightarrow> 'ms"
  media_pause :: "'ms \<Rightarrow> c_int \<Rightarrow> 'ms"
  media_read_audio :: "'ms \<Rightarrow> nat \<Rightarrow> c_short list \<times> 'ms"
  media_wait_ready :: "'ms \<Rightarrow> 'ms"
  media_read_video :: "'ms \<Rightarrow> 'surf option \<times> 'ms"
  media_video_ready :: "'ms \<Rightarrow> c_int \<times> 'ms"
  media_duration :: "'ms \<Rightarrow> real"

subsection \<open>Conversions\<close>

text \<open>C division of integers truncates toward zero: \<open>sdiv\<close>. The product is computed
  in \<^verbatim>\<open>long long\<close>, where two 32-bit factors cannot overflow; the result is cut to
  32 bits when it is returned as \<^verbatim>\<open>int\<close>.\<close>

definition ms_to_samples :: "c_int \<Rightarrow> c_int \<Rightarrow> c_int" where
  "ms_to_samples fr ms = word_of_int ((sint ms * sint fr) sdiv 1000)"

text \<open>Division by \<^verbatim>\<open>audio_spec.freq\<close>: undefined in C when it is zero, \<open>None\<close> here.\<close>

definition samples_to_ms :: "c_int \<Rightarrow> c_int \<Rightarrow> c_int option" where
  "samples_to_ms fr samples =
     (if fr = 0 then None else Some (word_of_int ((sint samples * 1000) sdiv sint fr)))"

text \<open>The conversion of a float or double to \<^verbatim>\<open>int\<close> drops the fraction; it is
  undefined in C when the integral part does not fit, \<open>None\<close> here.\<close>

definition c_trunc :: "real \<Rightarrow> int" where
  "c_trunc x = (if 0 \<le> x then \<lfloor>x\<rfloor> else \<lceil>x\<rceil>)"

definition float_to_int :: "real \<Rightarrow> c_int option" where
  "float_to_int x =
     (let t = c_trunc x
      in if - (2 ^ 31) \<le> t \<and> t < 2 ^ 31 then Some (word_of_int t) else None)"

subsection \<open>Helpers of the control functions\<close>

definition start_stream :: "c_int \<Rightarrow> 'ms Channel \<Rightarrow> bool \<Rightarrow> 'ms Channel" where
  "start_stream fr c reset_fade =
     (let c = c\<lparr>pos := 0\<rparr>
      in if reset_fade then
           c\<lparr>fade := (fade c)\<lparr>i_start := 0, i_end := 1, i_done := 0,
                               i_duration := ms_to_samples fr (playing_fadein c)\<rparr>,
             stop_samples := - 1\<rparr>
         else c)"

text \<open>\<^verbatim>\<open>free_stream\<close> closes the decoder: the model logs it.\<close>

definition free_stream :: "'ms \<Rightarrow> 'ms rps \<Rightarrow> 'ms rps" where
  "free_stream ss st = st\<lparr>closed := closed st @ [ss]\<rparr>"

definition post_event :: "'ms Channel \<Rightarrow> c_int list \<Rightarrow> c_int list" where
  "post_event c ev = (if event c = 0 then ev else ev @ [event c])"

text \<open>A channel after \<^verbatim>\<open>memset\<close> to zero and the initialisation of \<^verbatim>\<open>check_channel\<close>.\<close>

definition new_channel :: "'ms Channel" where
  "new_channel = \<lparr> playing = None, playing_name = None, playing_fadein = 0,
     playing_tight = 0, playing_start_ms = 0, playing_relative_volume = 0,
     queued = None, queued_name = None, queued_fadein = 0, queued_tight = 0,
     queued_start_ms = 0, queued_relative_volume = 0, paused = 1, mixer_volume = 1,
     secondary_volume = init_interpolate 1, pos = 0, fade = init_interpolate 1,
     stop_samples = 0, event = 0, pan = init_interpolate 0, video = 0 \<rparr>"

text \<open>
  \<^verbatim>\<open>check_channel\<close> returns 0 when the channel is usable and -1 otherwise. Whether
  \<^verbatim>\<open>realloc\<close> succeeds is the parameter \<open>ok\<close> of the call. (For the channel
  \<^verbatim>\<open>INT_MAX\<close> the C code overflows in \<^verbatim>\<open>c + 1\<close>; the model counts in \<open>nat\<close>.)
\<close>

definition check_channel :: "bool \<Rightarrow> c_int \<Rightarrow> 'ms rps \<Rightarrow> c_int \<times> 'ms rps" where
  "check_channel ok c st =
     (if c <s 0 then
        (- 1, st\<lparr>RPS_error := RPS_ERROR, error_msg := Some ''Channel number out of range.''\<rparr>)
      else if unat c \<ge> num_channels st then
        (if \<not> ok then
           (- 1, st\<lparr>RPS_error := RPS_ERROR,
                     error_msg := Some ''Unable to allocate additional channels.''\<rparr>)
         else
           (0, st\<lparr>channels := channels st @
                     replicate (unat c + 1 - num_channels st) new_channel\<rparr>))
      else (0, st))"

definition set_chan :: "nat \<Rightarrow> 'ms Channel \<Rightarrow> 'ms rps \<Rightarrow> 'ms rps" where
  "set_chan i c st = st\<lparr>channels := (channels st)[i := c]\<rparr>"

definition load_stream ::
  "('ms, 'rw, 'surf) decoder \<Rightarrow> 'rw \<Rightarrow> string \<Rightarrow> real \<Rightarrow> real \<Rightarrow> c_int \<Rightarrow> 'ms option" where
  "load_stream D rw ext start en vid =
     (case media_open D rw ext of
        None \<Rightarrow> None
      | Some rv \<Rightarrow>
          (let rv = media_start_end D rv start en;
               rv = (if vid \<noteq> 0 then media_want_video D rv vid else rv)
           in Some (media_start D rv)))"

subsection \<open>The control functions\<close>

text \<open>
  Each \<^verbatim>\<open>RPS_*\<close> function takes the state and returns the new one, after the result
  when the C function returns one. \<open>ok\<close> is the outcome of \<^verbatim>\<open>realloc\<close> in
  \<^verbatim>\<open>check_channel\<close>. A function that converts a float or a double to \<^verbatim>\<open>int\<close>, or
  divides by the frequency, returns an \<open>option\<close>: \<open>None\<close> is undefined behaviour of the
  C code. \<open>rnd\<close> rounds to \<^verbatim>\<open>float\<close> and \<open>rd\<close> to \<^verbatim>\<open>double\<close>.
\<close>

definition RPS_play ::
  "('ms, 'rw, 'surf) decoder \<Rightarrow> (real \<Rightarrow> real) \<Rightarrow> bool \<Rightarrow> c_int \<Rightarrow> 'rw \<Rightarrow> string \<Rightarrow> string \<Rightarrow>
   c_int \<Rightarrow> c_int \<Rightarrow> c_int \<Rightarrow> real \<Rightarrow> real \<Rightarrow> c_float \<Rightarrow> 'ms rps \<Rightarrow> 'ms rps option" where
  "RPS_play D rd ok channel rw ext name fadein tight pau start en relative_volume st =
     (case check_channel ok channel st of (rv, st) \<Rightarrow>
        if rv \<noteq> 0 then Some st
        else
          let i = unat channel;
              c = channels st ! i;
              st = (case playing c of None \<Rightarrow> st | Some p \<Rightarrow> free_stream p st);
              c = (if playing c \<noteq> None then
                     c\<lparr>playing := None, playing_name := None, playing_tight := 0,
                       playing_start_ms := 0, playing_relative_volume := 1\<rparr>
                   else c);
              st = (case queued c of None \<Rightarrow> st | Some q \<Rightarrow> free_stream q st);
              c = (if queued c \<noteq> None then
                     c\<lparr>queued := None, queued_name := None, queued_tight := 0,
                       queued_start_ms := 0, queued_relative_volume := 1\<rparr>
                   else c);
              c = c\<lparr>playing := load_stream D rw ext start en (video c)\<rparr>
          in if playing c = None then Some ((set_chan i c st)\<lparr>RPS_error := SOUND_ERROR\<rparr>)
             else
               (case float_to_int (rd (start * 1000)) of
                  None \<Rightarrow> None
                | Some start_ms \<Rightarrow>
                    let c = c\<lparr>playing_name := Some name, playing_fadein := fadein,
                              playing_tight := tight, playing_start_ms := start_ms,
                              playing_relative_volume := relative_volume, paused := pau\<rparr>;
                        c = start_stream (freq st) c True
                    in Some ((set_chan i c st)\<lparr>RPS_error := SUCCESS\<rparr>)))"

definition RPS_queue ::
  "('ms, 'rw, 'surf) decoder \<Rightarrow> (real \<Rightarrow> real) \<Rightarrow> bool \<Rightarrow> c_int \<Rightarrow> 'rw \<Rightarrow> string \<Rightarrow> string \<Rightarrow>
   c_int \<Rightarrow> c_int \<Rightarrow> real \<Rightarrow> real \<Rightarrow> c_float \<Rightarrow> 'ms rps \<Rightarrow> 'ms rps option" where
  "RPS_queue D rd ok channel rw ext name fadein tight start en relative_volume st0 =
     (case check_channel ok channel st0 of (rv, st) \<Rightarrow>
        if rv \<noteq> 0 then Some st
        else
          let i = unat channel;
              c = channels st ! i
          in if playing c = None then
               RPS_play D rd ok channel rw ext name fadein tight 0 start en relative_volume st
             else
               let st = (case queued c of None \<Rightarrow> st | Some q \<Rightarrow> free_stream q st);
                   c = (if queued c \<noteq> None then
                          c\<lparr>queued := None, queued_name := None, queued_tight := 0\<rparr>
                        else c);
                   c = c\<lparr>queued := load_stream D rw ext start en (video c)\<rparr>
               in if queued c = None then Some ((set_chan i c st)\<lparr>RPS_error := SOUND_ERROR\<rparr>)
                  else
                    (case float_to_int (rd (start * 1000)) of
                       None \<Rightarrow> None
                     | Some start_ms \<Rightarrow>
                         let c = c\<lparr>queued_name := Some name, queued_fadein := fadein,
                                   queued_tight := tight, queued_start_ms := start_ms,
                                   queued_relative_volume := relative_volume\<rparr>
                         in Some ((set_chan i c st)\<lparr>RPS_error := SUCCESS\<rparr>)))"

definition RPS_stop :: "bool \<Rightarrow> c_int \<Rightarrow> 'ms rps \<Rightarrow> 'ms rps" where
  "RPS_stop ok channel st =
     (case check_channel ok channel st of (rv, st) \<Rightarrow>
        if rv \<noteq> 0 then st
        else
          let i = unat channel;
              c = channels st ! i;
              st = (if playing c \<noteq> None then st\<lparr>events := post_event c (events st)\<rparr> else st);
              st = (case playing c of None \<Rightarrow> st | Some p \<Rightarrow> free_stream p st);
              c = (if playing c \<noteq> None then
                     c\<lparr>playing := None, playing_name := None, playing_start_ms := 0,
                       playing_relative_volume := 1\<rparr>
                   else c);
              st = (case queued c of None \<Rightarrow> st | Some q \<Rightarrow> free_stream q st);
              c = (if queued c \<noteq> None then
                     c\<lparr>queued := None, queued_name := None, queued_start_ms := 0,
                       queued_relative_volume := 1\<rparr>
                   else c)
          in (set_chan i c st)\<lparr>RPS_error := SUCCESS\<rparr>)"

definition RPS_dequeue :: "bool \<Rightarrow> c_int \<Rightarrow> c_int \<Rightarrow> 'ms rps \<Rightarrow> 'ms rps" where
  "RPS_dequeue ok channel even_tight st =
     (case check_channel ok channel st of (rv, st) \<Rightarrow>
        if rv \<noteq> 0 then st
        else
          let i = unat channel;
              c = channels st ! i;
              free = (queued c \<noteq> None \<and> (playing_tight c = 0 \<or> even_tight \<noteq> 0));
              st = (if free then (case queued c of None \<Rightarrow> st | Some q \<Rightarrow> free_stream q st)
                    else st);
              c = (if free then c\<lparr>queued := None, queued_name := None\<rparr>
                   else c\<lparr>queued_tight := 0\<rparr>);
              c = c\<lparr>queued_start_ms := 0\<rparr>
          in (set_chan i c st)\<lparr>RPS_error := SUCCESS\<rparr>)"

definition RPS_queue_depth :: "bool \<Rightarrow> c_int \<Rightarrow> 'ms rps \<Rightarrow> c_int \<times> 'ms rps" where
  "RPS_queue_depth ok channel st =
     (case check_channel ok channel st of (rv, st) \<Rightarrow>
        if rv \<noteq> 0 then (0, st)
        else
          let c = channels st ! unat channel;
              r = (0 :: c_int);
              r = (if playing c \<noteq> None then r + 1 else r);
              r = (if queued c \<noteq> None then r + 1 else r)
          in (r, st\<lparr>RPS_error := SUCCESS\<rparr>))"

definition RPS_playing_name :: "bool \<Rightarrow> c_int \<Rightarrow> 'ms rps \<Rightarrow> string option \<times> 'ms rps" where
  "RPS_playing_name ok channel st =
     (case check_channel ok channel st of (rv, st) \<Rightarrow>
        if rv \<noteq> 0 then (None, st)
        else (playing_name (channels st ! unat channel), st\<lparr>RPS_error := SUCCESS\<rparr>))"

definition RPS_fadeout :: "(real \<Rightarrow> real) \<Rightarrow> bool \<Rightarrow> c_int \<Rightarrow> c_int \<Rightarrow> 'ms rps \<Rightarrow> 'ms rps" where
  "RPS_fadeout rnd ok channel ms st =
     (case check_channel ok channel st of (rv, st) \<Rightarrow>
        if rv \<noteq> 0 then st
        else
          let i = unat channel;
              c = channels st ! i
          in if ms = 0 then (set_chan i (c\<lparr>stop_samples := 0\<rparr>) st)\<lparr>RPS_error := SUCCESS\<rparr>
             else
               let f = (fade c)\<lparr>i_done := 0\<rparr>;
                   f = f\<lparr>i_duration := ms_to_samples (freq st) ms\<rparr>;
                   (v, f) = get_interpolate rnd f;
                   f = f\<lparr>i_start := v\<rparr>;
                   f = f\<lparr>i_end := 0\<rparr>;
                   c = c\<lparr>fade := f\<rparr>;
                   c = c\<lparr>stop_samples := ms_to_samples (freq st) ms\<rparr>;
                   c = c\<lparr>queued_tight := 0\<rparr>;
                   c = (if queued c = None then c\<lparr>playing_tight := 0\<rparr> else c)
               in (set_chan i c st)\<lparr>RPS_error := SUCCESS\<rparr>)"

definition RPS_pause ::
  "('ms, 'rw, 'surf) decoder \<Rightarrow> bool \<Rightarrow> c_int \<Rightarrow> c_int \<Rightarrow> 'ms rps \<Rightarrow> 'ms rps" where
  "RPS_pause D ok channel pause st =
     (case check_channel ok channel st of (rv, st) \<Rightarrow>
        if rv \<noteq> 0 then st
        else
          let i = unat channel;
              c = channels st ! i;
              c = c\<lparr>paused := pause\<rparr>;
              c = (case playing c of None \<Rightarrow> c
                   | Some p \<Rightarrow> c\<lparr>playing := Some (media_pause D p pause)\<rparr>)
          in (set_chan i c st)\<lparr>RPS_error := SUCCESS\<rparr>)"

text \<open>The two loops of \<^verbatim>\<open>RPS_unpause_all_at_start\<close> visit each channel on its own.\<close>

definition RPS_unpause_all_at_start ::
  "('ms, 'rw, 'surf) decoder \<Rightarrow> 'ms rps \<Rightarrow> 'ms rps" where
  "RPS_unpause_all_at_start D st =
     (let cs = map (\<lambda>c. case playing c of
                          None \<Rightarrow> c
                        | Some p \<Rightarrow> if paused c \<noteq> 0 \<and> pos c = 0
                                    then c\<lparr>playing := Some (media_wait_ready D p)\<rparr> else c)
                   (channels st);
          cs = map (\<lambda>c. case playing c of
                          None \<Rightarrow> c
                        | Some p \<Rightarrow> if pos c = 0
                                    then c\<lparr>paused := 0, playing := Some (media_pause D p 0)\<rparr>
                                    else c)
                   cs
      in st\<lparr>channels := cs, RPS_error := SUCCESS\<rparr>)"

definition RPS_get_pos :: "bool \<Rightarrow> c_int \<Rightarrow> 'ms rps \<Rightarrow> (c_int \<times> 'ms rps) option" where
  "RPS_get_pos ok channel st =
     (case check_channel ok channel st of (rv, st) \<Rightarrow>
        if rv \<noteq> 0 then Some (- 1, st)
        else
          let c = channels st ! unat channel
          in if playing c \<noteq> None then
               (case samples_to_ms (freq st) (pos c) of
                  None \<Rightarrow> None
                | Some t \<Rightarrow> Some (t + playing_start_ms c, st\<lparr>RPS_error := SUCCESS\<rparr>))
             else Some (- 1, st\<lparr>RPS_error := SUCCESS\<rparr>))"

definition RPS_get_duration ::
  "('ms, 'rw, 'surf) decoder \<Rightarrow> bool \<Rightarrow> c_int \<Rightarrow> 'ms rps \<Rightarrow> real \<times> 'ms rps" where
  "RPS_get_duration D ok channel st =
     (case check_channel ok channel st of (rv, st) \<Rightarrow>
        if rv \<noteq> 0 then (0, st)
        else
          (case playing (channels st ! unat channel) of
             Some p \<Rightarrow> (media_duration D p, st\<lparr>RPS_error := SUCCESS\<rparr>)
           | None \<Rightarrow> (0, st\<lparr>RPS_error := SUCCESS\<rparr>)))"

definition RPS_set_endevent :: "bool \<Rightarrow> c_int \<Rightarrow> c_int \<Rightarrow> 'ms rps \<Rightarrow> 'ms rps" where
  "RPS_set_endevent ok channel evt st =
     (case check_channel ok channel st of (rv, st) \<Rightarrow>
        if rv \<noteq> 0 then st
        else
          let i = unat channel;
              c = channels st ! i
          in (set_chan i (c\<lparr>event := evt\<rparr>) st)\<lparr>RPS_error := SUCCESS\<rparr>)"

definition RPS_set_volume :: "bool \<Rightarrow> c_int \<Rightarrow> c_float \<Rightarrow> 'ms rps \<Rightarrow> 'ms rps" where
  "RPS_set_volume ok channel volume st =
     (case check_channel ok channel st of (rv, st) \<Rightarrow>
        if rv \<noteq> 0 then st
        else
          let i = unat channel;
              c = channels st ! i
          in (set_chan i (c\<lparr>mixer_volume := volume\<rparr>) st)\<lparr>RPS_error := SUCCESS\<rparr>)"

definition RPS_get_volume :: "bool \<Rightarrow> c_int \<Rightarrow> 'ms rps \<Rightarrow> c_float \<times> 'ms rps" where
  "RPS_get_volume ok channel st =
     (case check_channel ok channel st of (rv, st) \<Rightarrow>
        if rv \<noteq> 0 then (0, st)
        else (mixer_volume (channels st ! unat channel), st\<lparr>RPS_error := SUCCESS\<rparr>))"

definition RPS_set_pan ::
  "(real \<Rightarrow> real) \<Rightarrow> bool \<Rightarrow> c_int \<Rightarrow> c_float \<Rightarrow> c_float \<Rightarrow> 'ms rps \<Rightarrow> 'ms rps option" where
  "RPS_set_pan rnd ok channel pn delay st =
     (case check_channel ok channel st of (rv, st) \<Rightarrow>
        if rv \<noteq> 0 then Some st
        else
          let i = unat channel;
              c = channels st ! i;
              (v, f) = get_interpolate rnd (pan c);
              f = f\<lparr>i_start := v\<rparr>;
              f = f\<lparr>i_end := pn\<rparr>;
              f = f\<lparr>i_done := 0\<rparr>
          in (case float_to_int (rnd (delay * 1000)) of
                None \<Rightarrow> None
              | Some ms \<Rightarrow>
                  let f = f\<lparr>i_duration := ms_to_samples (freq st) ms\<rparr>
                  in Some ((set_chan i (c\<lparr>pan := f\<rparr>) st)\<lparr>RPS_error := SUCCESS\<rparr>)))"

definition RPS_set_secondary_volume ::
  "(real \<Rightarrow> real) \<Rightarrow> bool \<Rightarrow> c_int \<Rightarrow> c_float \<Rightarrow> c_float \<Rightarrow> 'ms rps \<Rightarrow> 'ms rps option" where
  "RPS_set_secondary_volume rnd ok channel vol2 delay st =
     (case check_channel ok channel st of (rv, st) \<Rightarrow>
        if rv \<noteq> 0 then Some st
        else
          let i = unat channel;
              c = channels st ! i;
              (v, f) = get_interpolate rnd (secondary_volume c);
              f = f\<lparr>i_start := v\<rparr>;
              f = f\<lparr>i_end := vol2\<rparr>;
              f = f\<lparr>i_done := 0\<rparr>
          in (case float_to_int (rnd (delay * 1000)) of
                None \<Rightarrow> None
              | Some ms \<Rightarrow>
                  let f = f\<lparr>i_duration := ms_to_samples (freq st) ms\<rparr>
                  in Some ((set_chan i (c\<lparr>secondary_volume := f\<rparr>) st)
                             \<lparr>RPS_error := SUCCESS\<rparr>)))"

definition RPS_read_video ::
  "('ms, 'rw, 'surf) decoder \<Rightarrow> bool \<Rightarrow> c_int \<Rightarrow> 'ms rps \<Rightarrow> 'surf option \<times> 'ms rps" where
  "RPS_read_video D ok channel st =
     (case check_channel ok channel st of (rv, st) \<Rightarrow>
        if rv \<noteq> 0 then (None, st)
        else
          let i = unat channel;
              c = channels st ! i
          in (case playing c of
                None \<Rightarrow> (None, st\<lparr>RPS_error := SUCCESS\<rparr>)
              | Some p \<Rightarrow>
                  (case media_read_video D p of (surf, p') \<Rightarrow>
                     (surf, (set_chan i (c\<lparr>playing := Some p'\<rparr>) st)\<lparr>RPS_error := SUCCESS\<rparr>))))"

definition RPS_video_ready ::
  "('ms, 'rw, 'surf) decoder \<Rightarrow> bool \<Rightarrow> c_int \<Rightarrow> 'ms rps \<Rightarrow> c_int \<times> 'ms rps" where
  "RPS_video_ready D ok channel st =
     (case check_channel ok channel st of (rv, st) \<Rightarrow>
        if rv \<noteq> 0 then (1, st)
        else
          let i = unat channel;
              c = channels st ! i
          in (case playing c of
                None \<Rightarrow> (1, st\<lparr>RPS_error := SUCCESS\<rparr>)
              | Some p \<Rightarrow>
                  (case media_video_ready D p of (r, p') \<Rightarrow>
                     (r, (set_chan i (c\<lparr>playing := Some p'\<rparr>) st)\<lparr>RPS_error := SUCCESS\<rparr>))))"

definition RPS_set_video :: "bool \<Rightarrow> c_int \<Rightarrow> c_int \<Rightarrow> 'ms rps \<Rightarrow> 'ms rps" where
  "RPS_set_video ok channel vid st =
     (case check_channel ok channel st of (rv, st) \<Rightarrow>
        if rv \<noteq> 0 then st
        else
          let i = unat channel;
              c = channels st ! i
          in set_chan i (c\<lparr>video := vid\<rparr>) st)"

text \<open>
  \<^verbatim>\<open>RPS_init\<close>: whether \<^verbatim>\<open>SDL_Init\<close> and \<^verbatim>\<open>SDL_OpenAudio\<close> succeed are the
  parameters \<open>init_ok\<close> and \<open>open_ok\<close>. \<^verbatim>\<open>RPS_quit\<close> stops every channel and sets
  \<^verbatim>\<open>num_channels\<close> to 0; the entries of the array are initialised again by
  \<^verbatim>\<open>check_channel\<close> before any later use, so the model empties the list.
\<close>

definition RPS_init :: "bool \<Rightarrow> bool \<Rightarrow> c_int \<Rightarrow> 'ms rps \<Rightarrow> 'ms rps" where
  "RPS_init init_ok open_ok fr st =
     (if initialized st \<noteq> 0 then st
      else if \<not> init_ok then st\<lparr>RPS_error := SDL_ERROR\<rparr>
      else
        let st = st\<lparr>freq := fr\<rparr>
        in if \<not> open_ok then st\<lparr>RPS_error := SDL_ERROR\<rparr>
           else st\<lparr>initialized := 1, RPS_error := SUCCESS\<rparr>)"

definition RPS_quit :: "'ms rps \<Rightarrow> 'ms rps" where
  "RPS_quit st =
     (if initialized st = 0 then st
      else
        let st = fold (\<lambda>i. RPS_stop True (word_of_nat i)) [0 ..< num_channels st] st
        in st\<lparr>channels := [], initialized := 0, RPS_error := SUCCESS\<rparr>)"

definition RPS_periodic :: "'ms rps \<Rightarrow> 'ms rps" where
  "RPS_periodic st = st\<lparr>dying := [], closed := closed st @ dying st\<rparr>"

subsection \<open>The mixer callback\<close>

text \<open>
  \<^verbatim>\<open>mix_sample\<close>. The quotient \<^verbatim>\<open>left_in / 1.0 / -MIN_SHORT\<close> is computed in
  \<^verbatim>\<open>double\<close> and stored in a \<^verbatim>\<open>float\<close>: a 16-bit integer divided by \<open>2 ^ 15\<close> is exact
  in both formats, so no rounding appears. The additions into the accumulator round.
  The two outputs are the entries of the mix buffer the pointers designate.
\<close>

definition mix_sample ::
  "(real \<Rightarrow> real) \<Rightarrow> 'ms Channel \<Rightarrow> c_short \<Rightarrow> c_short \<Rightarrow> c_float \<times> c_float \<Rightarrow> c_float \<times> c_float" where
  "mix_sample rnd c left_in right_in out =
     (let left = real_of_int (sint left_in) / 1 / real_of_int (- MIN_SHORT);
          right = real_of_int (sint right_in) / 1 / real_of_int (- MIN_SHORT)
      in (rnd (fst out + left), rnd (snd out + right)))"

text \<open>
  The inner loop \<^verbatim>\<open>while (c->stop_samples && read_length)\<close>, by recursion on
  \<^verbatim>\<open>read_length\<close>. The state is the channel, \<^verbatim>\<open>mixed\<close> and the mix buffer; \<open>sb\<close> is
  the stream buffer, which the loop only reads. The loop runs after the check that
  the decoder wrote no more than the frames it was asked for, so \<open>mixed\<close> stays below
  the number of frames of the callback and every index is inside its buffer.
\<close>

primrec mix_frames ::
  "(real \<Rightarrow> real) \<Rightarrow> c_short list \<Rightarrow> nat \<Rightarrow> 'ms Channel \<times> nat \<times> c_float list \<Rightarrow>
   'ms Channel \<times> nat \<times> c_float list" where
  "mix_frames rnd sb 0 s = s"
| "mix_frames rnd sb (Suc n) s =
     (case s of (c, mixed, mb) \<Rightarrow>
        if stop_samples c = 0 then s
        else
          let out = mix_sample rnd c (sb ! (mixed * 2)) (sb ! (mixed * 2 + 1))
                      (mb ! (mixed * 2), mb ! (mixed * 2 + 1));
              mb = mb[mixed * 2 := fst out, mixed * 2 + 1 := snd out];
              c = (if 0 <s stop_samples c then c\<lparr>stop_samples := stop_samples c - 1\<rparr> else c);
              c = c\<lparr>pos := pos c + 1\<rparr>
          in mix_frames rnd sb n (c, mixed + 1, mb))"

text \<open>
  One pass through the body of \<^verbatim>\<open>while (mixed < length && c->playing)\<close>. The state is
  the channel, \<^verbatim>\<open>mixed\<close>, the mix buffer, the stream buffer, the dying list and the
  event log. The decoder writes its samples from index 0 of the stream buffer; a
  decoder that writes more than the capacity it was given overruns the buffer, which
  is \<open>None\<close>. \<^verbatim>\<open>read_length\<close> is the byte count divided by 4.
\<close>

type_synonym 'ms mix_state =
  "'ms Channel \<times> nat \<times> c_float list \<times> c_short list \<times> 'ms list \<times> c_int list"

definition channel_iter ::
  "('ms, 'rw, 'surf) decoder \<Rightarrow> (real \<Rightarrow> real) \<Rightarrow> c_int \<Rightarrow> nat \<Rightarrow> 'ms mix_state \<Rightarrow>
   'ms mix_state option" where
  "channel_iter D rnd fr len s =
     (case s of (c, mixed, mb, sb, dy, ev) \<Rightarrow>
        (case playing c of
           None \<Rightarrow> None
         | Some p \<Rightarrow>
             let mixleft = len - mixed;
                 (data, p') = media_read_audio D p (mixleft * 2 * 2)
             in if length data > mixleft * 2 then None
                else
                  let sb = data @ drop (length data) sb;
                      c = c\<lparr>playing := Some p'\<rparr>;
                      read_length = (length data * 2) div (2 * 2)
                  in if stop_samples c = 0 \<or> read_length = 0 then
                       let old_tight = playing_tight c;
                           ev = post_event c ev;
                           dy = p' # dy;
                           c = c\<lparr>playing := queued c, playing_name := queued_name c,
                                 playing_fadein := queued_fadein c,
                                 playing_tight := queued_tight c,
                                 playing_start_ms := queued_start_ms c,
                                 playing_relative_volume := queued_relative_volume c\<rparr>;
                           c = c\<lparr>queued := None, queued_name := None, queued_fadein := 0,
                                 queued_tight := 0, queued_start_ms := 0,
                                 queued_relative_volume := 1\<rparr>;
                           old_tight = (if playing_fadein c \<noteq> 0 then 0 else old_tight)
                       in Some (start_stream fr c (old_tight = 0), mixed, mb, sb, dy, ev)
                     else
                       (case mix_frames rnd sb read_length (c, mixed, mb) of
                          (c, mixed, mb) \<Rightarrow> Some (c, mixed, mb, sb, dy, ev))))"

text \<open>The number of streams a channel still holds; it drops at each promotion.\<close>

definition slots :: "'ms Channel \<Rightarrow> nat" where
  "slots c = (if playing c = None then 0 else 1) + (if queued c = None then 0 else 1)"

text \<open>
  Three notions used to state what the loops do. \<open>frames_mixed stop n\<close> is the number
  of frames the inner loop mixes when it starts with \<^verbatim>\<open>stop_samples = stop\<close> and
  \<^verbatim>\<open>read_length = n\<close>; \<open>stop_after\<close> is \<^verbatim>\<open>stop_samples\<close> when it ends; \<open>promote\<close>
  is the move of the queued slot into the playing slot.
\<close>

definition frames_mixed :: "c_int \<Rightarrow> nat \<Rightarrow> nat" where
  "frames_mixed stop n =
     (if stop = 0 then 0 else if 0 < sint stop then min n (nat (sint stop)) else n)"

definition stop_after :: "c_int \<Rightarrow> nat \<Rightarrow> c_int" where
  "stop_after stop n = (if 0 <s stop then stop - word_of_nat (frames_mixed stop n) else stop)"

definition promote :: "'ms Channel \<Rightarrow> 'ms Channel" where
  "promote c =
     c\<lparr>playing := queued c, playing_name := queued_name c, playing_fadein := queued_fadein c,
       playing_tight := queued_tight c, playing_start_ms := queued_start_ms c,
       playing_relative_volume := queued_relative_volume c,
       queued := None, queued_name := None, queued_fadein := 0, queued_tight := 0,
       queued_start_ms := 0, queued_relative_volume := 1\<rparr>"

subsection \<open>The inner loop in closed form, and termination of the channel loop\<close>

lemma sint_pos_dec:
  fixes w :: c_int
  assumes "0 < sint w"
  shows "sint (w - 1) = sint w - 1"
proof -
  have "sint w < 2 ^ 31" using sint_lt [of w] by simp
  then show ?thesis
    using assms by (simp add: sint_word_ariths signed_take_bit_int_eq_self)
qed

lemma sint_eq_1: "sint (w :: c_int) = 1 \<longleftrightarrow> w = 1"
  using word_eq_iff_signed [of w 1, where ?'a = int] by auto

lemma frames_mixed_Suc:
  "stop \<noteq> 0 \<Longrightarrow>
   frames_mixed stop (Suc n) = Suc (frames_mixed (if 0 <s stop then stop - 1 else stop) n)"
  by (auto simp: frames_mixed_def word_sless_alt sint_pos_dec signed_eq_0_iff min_def) (simp add: sint_eq_1 [symmetric])

lemma frames_mixed_0 [simp]: "frames_mixed 0 n = 0" "frames_mixed stop 0 = 0"
  by (simp_all add: frames_mixed_def)

lemma frames_mixed_le: "frames_mixed stop n \<le> n"
  by (simp add: frames_mixed_def)

lemma frames_mixed_pos: "stop \<noteq> 0 \<Longrightarrow> 0 < n \<Longrightarrow> 0 < frames_mixed stop n"
  by (cases n) (simp_all add: frames_mixed_Suc)

lemma stop_after_Suc:
  "stop \<noteq> 0 \<Longrightarrow>
   stop_after stop (Suc n) = stop_after (if 0 <s stop then stop - 1 else stop) n"
proof (cases "stop = 1")
  case True
  then show ?thesis by (simp add: stop_after_def frames_mixed_Suc word_sless_alt)
next
  case False
  then have "sint stop \<noteq> 1" by (simp add: sint_eq_1)
  moreover assume "stop \<noteq> 0"
  ultimately show ?thesis
    by (auto simp: stop_after_def frames_mixed_Suc word_sless_alt sint_pos_dec signed_eq_0_iff)
qed

lemma mix_frames_Suc:
  "stop_samples c \<noteq> 0 \<Longrightarrow>
   mix_frames rnd sb (Suc n) (c, mixed, mb) =
     mix_frames rnd sb n
       (c\<lparr>stop_samples := (if 0 <s stop_samples c then stop_samples c - 1 else stop_samples c),
          pos := pos c + 1\<rparr>,
        Suc mixed,
        mb[mixed * 2 := rnd (mb ! (mixed * 2) + real_of_int (sint (sb ! (mixed * 2))) / 32768),
           mixed * 2 + 1 :=
             rnd (mb ! (mixed * 2 + 1) + real_of_int (sint (sb ! (mixed * 2 + 1))) / 32768)])"
  by (simp add: Let_def mix_sample_def MIN_SHORT_def)

lemma mix_frames_stopped:
  "stop_samples c = 0 \<Longrightarrow> mix_frames rnd sb n (c, mixed, mb) = (c, mixed, mb)"
  by (cases n) simp_all

lemma mix_frames_mixed:
  "fst (snd (mix_frames rnd sb n (c, mixed, mb))) = mixed + frames_mixed (stop_samples c) n"
proof (induction n arbitrary: c mixed mb)
  case 0
  then show ?case by simp
next
  case (Suc n)
  show ?case
  proof (cases "stop_samples c = 0")
    case True
    then show ?thesis by (simp add: mix_frames_stopped)
  next
    case False
    show ?thesis
      unfolding mix_frames_Suc [OF False] Suc.IH using False by (simp add: frames_mixed_Suc)
  qed
qed

lemma mix_frames_chan:
  "fst (mix_frames rnd sb n (c, mixed, mb)) =
     c\<lparr>stop_samples := stop_after (stop_samples c) n,
       pos := pos c + word_of_nat (frames_mixed (stop_samples c) n)\<rparr>"
proof (induction n arbitrary: c mixed mb)
  case 0
  then show ?case by (simp add: stop_after_def)
next
  case (Suc n)
  show ?case
  proof (cases "stop_samples c = 0")
    case True
    then show ?thesis by (simp add: mix_frames_stopped stop_after_def)
  next
    case False
    show ?thesis
      unfolding mix_frames_Suc [OF False] Suc.IH using False
      by (simp add: frames_mixed_Suc stop_after_Suc add.assoc)
  qed
qed

lemma mix_frames_length:
  "length (snd (snd (mix_frames rnd sb n (c, mixed, mb)))) = length mb"
proof (induction n arbitrary: c mixed mb)
  case 0
  then show ?case by simp
next
  case (Suc n)
  show ?case
  proof (cases "stop_samples c = 0")
    case True
    then show ?thesis by (simp add: mix_frames_stopped)
  next
    case False
    show ?thesis
      unfolding mix_frames_Suc [OF False] Suc.IH by simp
  qed
qed

lemma mix_frames_outside:
  "i < mixed * 2 \<or> (mixed + frames_mixed (stop_samples c) n) * 2 \<le> i \<Longrightarrow>
   snd (snd (mix_frames rnd sb n (c, mixed, mb))) ! i = mb ! i"
proof (induction n arbitrary: c mixed mb)
  case 0
  then show ?case by simp
next
  case (Suc n)
  show ?case
  proof (cases "stop_samples c = 0")
    case True
    then show ?thesis by (simp add: mix_frames_stopped)
  next
    case False
    let ?s1 = "if 0 <s stop_samples c then stop_samples c - 1 else stop_samples c"
    from Suc.prems False
    have range: "i < Suc mixed * 2 \<or> (Suc mixed + frames_mixed ?s1 n) * 2 \<le> i"
      and ne: "i \<noteq> mixed * 2" "i \<noteq> mixed * 2 + 1"
      by (auto simp: frames_mixed_Suc)
    show ?thesis
      unfolding mix_frames_Suc [OF False]
      by (subst Suc.IH) (use range ne in simp_all)
  qed
qed

text \<open>The frames the loop accumulates: frame \<open>j\<close> of this pass goes to the entries
  \<open>(mixed + j) * 2\<close> and \<open>(mixed + j) * 2 + 1\<close>, from the same entries of the stream buffer.\<close>

lemma mix_frames_at:
  assumes "j < frames_mixed (stop_samples c) n"
    and "(mixed + frames_mixed (stop_samples c) n) * 2 \<le> length mb"
  shows "snd (snd (mix_frames rnd sb n (c, mixed, mb))) ! ((mixed + j) * 2) =
           rnd (mb ! ((mixed + j) * 2) + real_of_int (sint (sb ! ((mixed + j) * 2))) / 32768)
       \<and> snd (snd (mix_frames rnd sb n (c, mixed, mb))) ! ((mixed + j) * 2 + 1) =
           rnd (mb ! ((mixed + j) * 2 + 1) + real_of_int (sint (sb ! ((mixed + j) * 2 + 1))) / 32768)"
  using assms
proof (induction n arbitrary: c mixed mb j)
  case 0
  then show ?case by simp
next
  case (Suc n)
  show ?case
  proof (cases "stop_samples c = 0")
    case True
    with Suc.prems show ?thesis by simp
  next
    case False
    let ?s1 = "if 0 <s stop_samples c then stop_samples c - 1 else stop_samples c"
    let ?c1 = "c\<lparr>stop_samples := ?s1, pos := pos c + 1\<rparr>"
    let ?mb1 = "mb[mixed * 2 := rnd (mb ! (mixed * 2) + real_of_int (sint (sb ! (mixed * 2))) / 32768),
           mixed * 2 + 1 :=
             rnd (mb ! (mixed * 2 + 1) + real_of_int (sint (sb ! (mixed * 2 + 1))) / 32768)]"
    have fm: "frames_mixed (stop_samples c) (Suc n) = Suc (frames_mixed ?s1 n)"
      using False by (rule frames_mixed_Suc)
    have len: "(Suc mixed + frames_mixed (stop_samples ?c1) n) * 2 \<le> length ?mb1"
      using Suc.prems(2) by (simp add: fm)
    show ?thesis
    proof (cases j)
      case 0
      have "snd (snd (mix_frames rnd sb n (?c1, Suc mixed, ?mb1))) ! (mixed * 2) = ?mb1 ! (mixed * 2)"
        "snd (snd (mix_frames rnd sb n (?c1, Suc mixed, ?mb1))) ! (mixed * 2 + 1) = ?mb1 ! (mixed * 2 + 1)"
        by (rule mix_frames_outside, simp)+
      moreover have "mixed * 2 + 1 < length mb" using Suc.prems(2) by (simp add: fm)
      ultimately show ?thesis
        unfolding mix_frames_Suc [OF False] using 0 by simp
    next
      case (Suc j')
      then have "j' < frames_mixed (stop_samples ?c1) n" using Suc.prems(1) by (simp add: fm)
      from Suc.IH [OF this len] show ?thesis
        unfolding mix_frames_Suc [OF False] using Suc by simp
    qed
  qed
qed


lemma start_stream_slots [simp]:
  "playing (start_stream fr c b) = playing c" "queued (start_stream fr c b) = queued c"
  by (simp_all add: start_stream_def Let_def)

lemma post_event_playing [simp]: "post_event (c\<lparr>playing := x\<rparr>) ev = post_event c ev"
  by (simp add: post_event_def)

lemma channel_iter_promote:
  assumes "playing c = Some p"
    and "media_read_audio D p ((len - mixed) * 2 * 2) = (data, p')"
    and "length data \<le> (len - mixed) * 2"
    and "stop_samples c = 0 \<or> length data div 2 = 0"
  shows "channel_iter D rnd fr len (c, mixed, mb, sb, dy, ev) =
           Some (start_stream fr (promote c) (playing_tight c = 0 \<or> queued_fadein c \<noteq> 0),
                 mixed, mb, data @ drop (length data) sb, p' # dy, post_event c ev)"
proof -
  have "length data * 2 div (2 * 2) = length data div 2" by simp
  with assms show ?thesis
    by (auto simp add: channel_iter_def Let_def promote_def)
qed

lemma channel_iter_mix:
  assumes "playing c = Some p"
    and "media_read_audio D p ((len - mixed) * 2 * 2) = (data, p')"
    and "length data \<le> (len - mixed) * 2"
    and "stop_samples c \<noteq> 0" and "length data div 2 \<noteq> 0"
  shows "channel_iter D rnd fr len (c, mixed, mb, sb, dy, ev) =
           (let sb' = data @ drop (length data) sb;
                r = mix_frames rnd sb' (length data div 2) (c\<lparr>playing := Some p'\<rparr>, mixed, mb)
            in Some (fst r, fst (snd r), snd (snd r), sb', dy, ev))"
proof -
  have "length data * 2 div (2 * 2) = length data div 2" by simp
  with assms show ?thesis
    by (simp add: channel_iter_def Let_def split: prod.splits)
qed

lemma channel_iter_overrun:
  assumes "playing c = Some p"
    and "(len - mixed) * 2 < length (fst (media_read_audio D p ((len - mixed) * 2 * 2)))"
  shows "channel_iter D rnd fr len (c, mixed, mb, sb, dy, ev) = None"
  using assms
  by (cases "media_read_audio D p ((len - mixed) * 2 * 2)") (simp add: channel_iter_def Let_def)

lemma channel_iter_decreases:
  assumes "channel_iter D rnd fr len (c, mixed, mb, sb, dy, ev) = Some (c', mixed', mb', sb', dy', ev')"
    and "mixed < len"
  shows "(len - mixed') + slots c' < (len - mixed) + slots c"
proof -
  from assms(1) obtain p where p: "playing c = Some p"
    by (auto simp: channel_iter_def split: option.splits)
  obtain data p' where rd: "media_read_audio D p ((len - mixed) * 2 * 2) = (data, p')"
    by (cases "media_read_audio D p ((len - mixed) * 2 * 2)")
  have le: "length data \<le> (len - mixed) * 2"
    using channel_iter_overrun [OF p, of len mixed D rnd fr mb sb dy ev] assms(1) rd
    by (cases "length data \<le> (len - mixed) * 2") simp_all
  show ?thesis
  proof (cases "stop_samples c = 0 \<or> length data div 2 = 0")
    case True
    from assms(1) have "slots c' = slots (promote c)" "mixed' = mixed"
      unfolding channel_iter_promote [OF p rd le True] by (auto simp: slots_def)
    with p show ?thesis by (simp add: slots_def promote_def)
  next
    case False
    then have ne: "stop_samples c \<noteq> 0" "length data div 2 \<noteq> 0" by simp_all
    let ?r = "mix_frames rnd (data @ drop (length data) sb) (length data div 2)
                (c\<lparr>playing := Some p'\<rparr>, mixed, mb)"
    from assms(1) have res: "c' = fst ?r" "mixed' = fst (snd ?r)"
      unfolding channel_iter_mix [OF p rd le ne] by (auto simp: Let_def)
    from ne have "0 < frames_mixed (stop_samples c) (length data div 2)"
      by (intro frames_mixed_pos) auto
    with res assms(2) p show ?thesis
      by (simp add: mix_frames_mixed mix_frames_chan slots_def)
  qed
qed

text \<open>
  The loop \<^verbatim>\<open>while (mixed < length && c->playing)\<close>. Each pass mixes at least one
  frame or retires a stream, so it terminates.
\<close>

function channel_loop ::
  "('ms, 'rw, 'surf) decoder \<Rightarrow> (real \<Rightarrow> real) \<Rightarrow> c_int \<Rightarrow> nat \<Rightarrow> 'ms mix_state \<Rightarrow>
   'ms mix_state option" where
  "channel_loop D rnd fr len (c, mixed, mb, sb, dy, ev) =
     (if mixed < len \<and> playing c \<noteq> None then
        (case channel_iter D rnd fr len (c, mixed, mb, sb, dy, ev) of
           None \<Rightarrow> None
         | Some s' \<Rightarrow> channel_loop D rnd fr len s')
      else Some (c, mixed, mb, sb, dy, ev))"
  by pat_completeness auto
termination
  by (relation "measure (\<lambda>(D, rnd, fr, len, c, mixed, mb, sb, dy, ev). (len - mixed) + slots c)")
    (auto dest: channel_iter_decreases)

text \<open>
  The loop over the channels. It threads the mix buffer, the stream buffer (one local
  array, shared by all channels of a call), the dying list and the event log.
\<close>

fun mix_channels ::
  "('ms, 'rw, 'surf) decoder \<Rightarrow> (real \<Rightarrow> real) \<Rightarrow> c_int \<Rightarrow> nat \<Rightarrow> 'ms Channel list \<Rightarrow>
   c_float list \<times> c_short list \<times> 'ms list \<times> c_int list \<Rightarrow>
   ('ms Channel list \<times> c_float list \<times> c_short list \<times> 'ms list \<times> c_int list) option" where
  "mix_channels D rnd fr len [] g = Some ([], g)"
| "mix_channels D rnd fr len (c # cs) (mb, sb, dy, ev) =
     (if playing c = None \<or> paused c \<noteq> 0 then
        (case mix_channels D rnd fr len cs (mb, sb, dy, ev) of
           None \<Rightarrow> None
         | Some (cs', g') \<Rightarrow> Some (c # cs', g'))
      else
        (case channel_loop D rnd fr len (c, 0, mb, sb, dy, ev) of
           None \<Rightarrow> None
         | Some (c', mixed, mb', sb', dy', ev') \<Rightarrow>
             (case mix_channels D rnd fr len cs (mb', sb', dy', ev') of
                None \<Rightarrow> None
              | Some (cs', g') \<Rightarrow> Some (c' # cs', g'))))"

text \<open>
  The output of one entry of the mix buffer: \<^verbatim>\<open>int left = mix_buffer[i] * MAX_SHORT\<close>
  is a float product, rounded, then converted to \<^verbatim>\<open>int\<close>; the two tests clamp it;
  the store into the \<^verbatim>\<open>short\<close> array keeps the low 16 bits.
\<close>

definition output_sample :: "(real \<Rightarrow> real) \<Rightarrow> c_float \<Rightarrow> c_short option" where
  "output_sample rnd v =
     (case float_to_int (rnd (v * real_of_int MAX_SHORT)) of
        None \<Rightarrow> None
      | Some left \<Rightarrow>
          (let left = (if sint left > MAX_SHORT then word_of_int MAX_SHORT else left);
               left = (if sint left < MIN_SHORT then word_of_int MIN_SHORT else left)
           in Some (ucast left)))"

text \<open>
  \<^verbatim>\<open>callback\<close>. \<open>nbytes\<close> is the parameter \<^verbatim>\<open>length\<close>, in bytes. \<open>junk\<close> is what the
  uninitialised array \<^verbatim>\<open>stream_buffer\<close> holds at entry. The result is the new state
  and the samples written to \<^verbatim>\<open>stream\<close>.
\<close>

definition callback ::
  "('ms, 'rw, 'surf) decoder \<Rightarrow> (real \<Rightarrow> real) \<Rightarrow> (nat \<Rightarrow> c_short) \<Rightarrow> nat \<Rightarrow> 'ms rps \<Rightarrow>
   ('ms rps \<times> c_short list) option" where
  "callback D rnd junk nbytes st =
     (let len = nbytes div 4;
          mix_buffer = replicate (len * 2) 0;
          stream_buffer = map junk [0 ..< len * 2]
      in case mix_channels D rnd (freq st) len (channels st)
                (mix_buffer, stream_buffer, dying st, events st) of
           None \<Rightarrow> None
         | Some (cs, mb, sb, dy, ev) \<Rightarrow>
             (case those (map (output_sample rnd) mb) of
                None \<Rightarrow> None
              | Some out \<Rightarrow> Some (st\<lparr>channels := cs, dying := dy, events := ev\<rparr>, out)))"

subsection \<open>Control calls\<close>

text \<open>
  A call of the control interface with its arguments; the first argument of a call on a
  channel is the outcome of \<^verbatim>\<open>realloc\<close>. \<open>control\<close> runs a whole call, with no callback
  of the audio thread inside it, and keeps the state.
\<close>

datatype 'rw call =
    Play bool c_int 'rw string string c_int c_int c_int real real real
  | Queue bool c_int 'rw string string c_int c_int real real real
  | Stop bool c_int
  | Dequeue bool c_int c_int
  | Queue_depth bool c_int
  | Playing_name bool c_int
  | Fadeout bool c_int c_int
  | Pause bool c_int c_int
  | Unpause_all_at_start
  | Get_pos bool c_int
  | Get_duration bool c_int
  | Set_endevent bool c_int c_int
  | Set_volume bool c_int real
  | Get_volume bool c_int
  | Set_pan bool c_int real real
  | Set_secondary_volume bool c_int real real
  | Read_video bool c_int
  | Video_ready bool c_int
  | Set_video bool c_int c_int
  | Init bool bool c_int
  | Quit
  | Periodic

fun control ::
  "('ms, 'rw, 'surf) decoder \<Rightarrow> (real \<Rightarrow> real) \<Rightarrow> (real \<Rightarrow> real) \<Rightarrow> 'rw call \<Rightarrow> 'ms rps \<Rightarrow>
   'ms rps option" where
  "control D rnd rd (Play ok ch rw ext name fadein tight pau start en rv) st =
     RPS_play D rd ok ch rw ext name fadein tight pau start en rv st"
| "control D rnd rd (Queue ok ch rw ext name fadein tight start en rv) st =
     RPS_queue D rd ok ch rw ext name fadein tight start en rv st"
| "control D rnd rd (Stop ok ch) st = Some (RPS_stop ok ch st)"
| "control D rnd rd (Dequeue ok ch even_tight) st = Some (RPS_dequeue ok ch even_tight st)"
| "control D rnd rd (Queue_depth ok ch) st = Some (snd (RPS_queue_depth ok ch st))"
| "control D rnd rd (Playing_name ok ch) st = Some (snd (RPS_playing_name ok ch st))"
| "control D rnd rd (Fadeout ok ch ms) st = Some (RPS_fadeout rnd ok ch ms st)"
| "control D rnd rd (Pause ok ch pause) st = Some (RPS_pause D ok ch pause st)"
| "control D rnd rd Unpause_all_at_start st = Some (RPS_unpause_all_at_start D st)"
| "control D rnd rd (Get_pos ok ch) st = map_option snd (RPS_get_pos ok ch st)"
| "control D rnd rd (Get_duration ok ch) st = Some (snd (RPS_get_duration D ok ch st))"
| "control D rnd rd (Set_endevent ok ch evt) st = Some (RPS_set_endevent ok ch evt st)"
| "control D rnd rd (Set_volume ok ch volume) st = Some (RPS_set_volume ok ch volume st)"
| "control D rnd rd (Get_volume ok ch) st = Some (snd (RPS_get_volume ok ch st))"
| "control D rnd rd (Set_pan ok ch pn delay) st = RPS_set_pan rnd ok ch pn delay st"
| "control D rnd rd (Set_secondary_volume ok ch vol2 delay) st =
     RPS_set_secondary_volume rnd ok ch vol2 delay st"
| "control D rnd rd (Read_video ok ch) st = Some (snd (RPS_read_video D ok ch st))"
| "control D rnd rd (Video_ready ok ch) st = Some (snd (RPS_video_ready D ok ch st))"
| "control D rnd rd (Set_video ok ch vid) st = Some (RPS_set_video ok ch vid st)"
| "control D rnd rd (Init init_ok open_ok fr) st = Some (RPS_init init_ok open_ok fr st)"
| "control D rnd rd Quit st = Some (RPS_quit st)"
| "control D rnd rd Periodic st = Some (RPS_periodic st)"

text \<open>
  \<^verbatim>\<open>RPS_queue\<close> tests \<^verbatim>\<open>c->playing\<close> before it takes the audio lock, so the audio
  thread can run the callback between the test and \<^verbatim>\<open>LOCK_AUDIO()\<close>.
  \<open>RPS_queue_locked\<close> is the part of \<^verbatim>\<open>RPS_queue\<close> from \<^verbatim>\<open>LOCK_AUDIO()\<close> to the end, on the
  channel the test has accepted. \<open>RPS_queue_interrupted\<close> is the call in the schedule
  where one callback runs after the test has found a playing stream and before the
  lock is taken; when the test finds no playing stream the call is \<^verbatim>\<open>RPS_play\<close>, as in
  \<open>RPS_queue\<close>.
\<close>

definition RPS_queue_locked ::
  "('ms, 'rw, 'surf) decoder \<Rightarrow> (real \<Rightarrow> real) \<Rightarrow> c_int \<Rightarrow> 'rw \<Rightarrow> string \<Rightarrow> string \<Rightarrow>
   c_int \<Rightarrow> c_int \<Rightarrow> real \<Rightarrow> real \<Rightarrow> c_float \<Rightarrow> 'ms rps \<Rightarrow> 'ms rps option" where
  "RPS_queue_locked D rd channel rw ext name fadein tight start en relative_volume st =
     (let i = unat channel;
          c = channels st ! i;
          st = (case queued c of None \<Rightarrow> st | Some q \<Rightarrow> free_stream q st);
          c = (if queued c \<noteq> None then
                 c\<lparr>queued := None, queued_name := None, queued_tight := 0\<rparr>
               else c);
          c = c\<lparr>queued := load_stream D rw ext start en (video c)\<rparr>
      in if queued c = None then Some ((set_chan i c st)\<lparr>RPS_error := SOUND_ERROR\<rparr>)
         else
           (case float_to_int (rd (start * 1000)) of
              None \<Rightarrow> None
            | Some start_ms \<Rightarrow>
                let c = c\<lparr>queued_name := Some name, queued_fadein := fadein,
                          queued_tight := tight, queued_start_ms := start_ms,
                          queued_relative_volume := relative_volume\<rparr>
                in Some ((set_chan i c st)\<lparr>RPS_error := SUCCESS\<rparr>)))"

definition RPS_queue_interrupted ::
  "('ms, 'rw, 'surf) decoder \<Rightarrow> (real \<Rightarrow> real) \<Rightarrow> (real \<Rightarrow> real) \<Rightarrow> (nat \<Rightarrow> c_short) \<Rightarrow> nat \<Rightarrow>
   bool \<Rightarrow> c_int \<Rightarrow> 'rw \<Rightarrow> string \<Rightarrow> string \<Rightarrow> c_int \<Rightarrow> c_int \<Rightarrow> real \<Rightarrow> real \<Rightarrow> c_float \<Rightarrow>
   'ms rps \<Rightarrow> 'ms rps option" where
  "RPS_queue_interrupted D rnd rd junk nbytes ok channel rw ext name fadein tight start en
     relative_volume st0 =
     (case check_channel ok channel st0 of (rv, st) \<Rightarrow>
        if rv \<noteq> 0 then Some st
        else
          let i = unat channel;
              c = channels st ! i
          in if playing c = None then
               RPS_play D rd ok channel rw ext name fadein tight 0 start en relative_volume st
             else
               (case callback D rnd junk nbytes st of
                  None \<Rightarrow> None
                | Some (st, out) \<Rightarrow>
                    RPS_queue_locked D rd channel rw ext name fadein tight start en
                      relative_volume st))"

text \<open>The invariant of a channel: a queued stream only with a playing stream.\<close>

definition queue_ok :: "'ms Channel \<Rightarrow> bool" where
  "queue_ok c = (queued c \<noteq> None \<longrightarrow> playing c \<noteq> None)"


subsection \<open>Concrete inputs\<close>

text \<open>
  Inputs on which the theorems below are run. \<open>exact\<close> is arithmetic without rounding.
  \<open>silence\<close> is a stream buffer that holds zeroes at entry and \<open>sevens\<close> one that
  holds the sample 7. The decoder state of
  \<open>test_decoder\<close> is the list of the reads still to come: each read returns the next
  list of samples, and an empty list of samples once the script is over.
\<close>

definition exact :: "real \<Rightarrow> real" where "exact x = x"
definition silence :: "nat \<Rightarrow> c_short" where "silence i = 0"

definition test_decoder :: "(c_short list list, c_short list list, unit) decoder" where
  "test_decoder =
     \<lparr> media_open = (\<lambda>rw ext. if ext = ''bad'' then None else Some rw),
       media_start_end = (\<lambda>ms s e. ms),
       media_want_video = (\<lambda>ms v. ms),
       media_start = (\<lambda>ms. ms),
       media_pause = (\<lambda>ms p. ms),
       media_read_audio = (\<lambda>ms cap. case ms of [] \<Rightarrow> ([], []) | x # xs \<Rightarrow> (x, xs)),
       media_wait_ready = (\<lambda>ms. ms),
       media_read_video = (\<lambda>ms. (None, ms)),
       media_video_ready = (\<lambda>ms. (1, ms)),
       media_duration = (\<lambda>ms. 0) \<rparr>"

definition chan_a :: "c_short list list Channel" where
  "chan_a = new_channel\<lparr>playing := Some [], playing_name := Some ''a'', playing_tight := 1,
     playing_relative_volume := 1, queued := Some [[1, 2]], queued_name := Some ''b'',
     queued_start_ms := 500, queued_relative_volume := 1, paused := 0, stop_samples := - 1,
     fade := \<lparr>i_done = 0, i_duration = 0, i_start = 0, i_end = 1\<rparr>\<rparr>"


definition chan_b :: "c_short list list Channel" where
  "chan_b = new_channel\<lparr>playing := Some [[16384, - 8192]], playing_name := Some ''b'',
     playing_fadein := 1000, playing_relative_volume := 1, paused := 0, stop_samples := - 1,
     fade := \<lparr>i_done = 0, i_duration = 44100, i_start = 0, i_end = 1\<rparr>\<rparr>"

definition state_b :: "c_short list list rps" where
  "state_b = (initial_state 44100)\<lparr>channels := [chan_b]\<rparr>"


definition chan_d :: "c_short list list Channel" where
  "chan_d = new_channel\<lparr>playing := Some [[16384, - 8192],
                                            [4096, 8192, 12288, 16384, 20480, 24576]],
     playing_name := Some ''d'', playing_relative_volume := 1, paused := 0,
     stop_samples := - 1, fade := \<lparr>i_done = 0, i_duration = 0, i_start = 0, i_end = 1\<rparr>\<rparr>"

definition state_d :: "c_short list list rps" where
  "state_d = (initial_state 44100)\<lparr>channels := [chan_d]\<rparr>"


definition state_f :: "c_short list list rps" where
  "state_f = (initial_state 44100)\<lparr>channels := [new_channel], RPS_error := SOUND_ERROR\<rparr>"

definition chan_q :: "c_short list list Channel" where
  "chan_q = new_channel\<lparr>playing := Some [[1, 1]], playing_name := Some ''a'', playing_tight := 1,
     playing_relative_volume := 1, queued := Some [[2, 2]], queued_name := Some ''b'',
     queued_tight := 1, queued_start_ms := 5000, queued_relative_volume := 1, paused := 0,
     stop_samples := - 1, fade := \<lparr>i_done = 0, i_duration = 0, i_start = 0, i_end = 1\<rparr>\<rparr>"

definition state_q :: "c_short list list rps" where
  "state_q = (initial_state 44100)\<lparr>channels := [chan_q]\<rparr>"


definition sevens :: "nat \<Rightarrow> c_short" where "sevens i = 7"

definition chan_e :: "c_short list list Channel" where
  "chan_e = chan_b\<lparr>playing := Some [], pos := 1\<rparr>"

definition state_e :: "c_short list list rps" where
  "state_e = state_b\<lparr>channels := [chan_e]\<rparr>"


section \<open>Theorems\<close>

subsection \<open>C6: the value of an interpolator\<close>

text \<open>
  C6. For every interpolator state (done, duration, start, end), \<open>get_interpolate\<close>
  returns \<open>end\<close> when \<open>done \<ge> duration\<close> (so a duration of zero always gives \<open>end\<close>),
  and otherwise \<open>start + (end - start) * done / duration\<close>: computed in float arithmetic
  for any rounding, and equal to the exact real value when no operation rounds. The call
  leaves the interpolator as it was, \<open>done\<close> included.
\<close>

theorem get_interpolate_value:
  "(unat (i_duration i) \<le> unat (i_done i) \<longrightarrow> fst (get_interpolate rnd i) = i_end i)
   \<and> (i_duration i = 0 \<longrightarrow> fst (get_interpolate rnd i) = i_end i)
   \<and> (unat (i_done i) < unat (i_duration i) \<longrightarrow>
        fst (get_interpolate rnd i) =
          rnd (i_start i + rnd (rnd (i_end i - i_start i) *
                 rnd (rnd (real (unat (i_done i))) / rnd (real (unat (i_duration i)))))))
   \<and> (unat (i_done i) < unat (i_duration i) \<longrightarrow>
        fst (get_interpolate (\<lambda>x. x) i) =
          i_start i + (i_end i - i_start i) * (real (unat (i_done i)) / real (unat (i_duration i))))
   \<and> snd (get_interpolate rnd i) = i
   \<and> i_done (snd (get_interpolate rnd i)) = i_done i"
  by (simp add: get_interpolate_def lerp_def uint_to_float_def word_le_nat_alt word_less_nat_alt)

theorem get_interpolate_value_witness:
  "fst (get_interpolate (\<lambda>x. x) \<lparr> i_done = 1, i_duration = 4, i_start = 0, i_end = 1 \<rparr>) = 1 / 4
   \<and> fst (get_interpolate (\<lambda>x. x) \<lparr> i_done = 4, i_duration = 4, i_start = 0, i_end = 1 \<rparr>) = 1
   \<and> fst (get_interpolate (\<lambda>x. x) \<lparr> i_done = 0, i_duration = 0, i_start = 0, i_end = 1 \<rparr>) = 1"
  using get_interpolate_value [of "\<lparr> i_done = 1, i_duration = 4, i_start = 0, i_end = 1 \<rparr>" "\<lambda>x. x"]
    get_interpolate_value [of "\<lparr> i_done = 4, i_duration = 4, i_start = 0, i_end = 1 \<rparr>" "\<lambda>x. x"]
    get_interpolate_value [of "\<lparr> i_done = 0, i_duration = 0, i_start = 0, i_end = 1 \<rparr>" "\<lambda>x. x"]
  by simp

subsection \<open>Fields after \<open>start_stream\<close>\<close>

lemma start_stream_other [simp]:
  "playing_name (start_stream fr c b) = playing_name c"
  "playing_fadein (start_stream fr c b) = playing_fadein c"
  "playing_tight (start_stream fr c b) = playing_tight c"
  "playing_start_ms (start_stream fr c b) = playing_start_ms c"
  "playing_relative_volume (start_stream fr c b) = playing_relative_volume c"
  "queued_name (start_stream fr c b) = queued_name c"
  "queued_fadein (start_stream fr c b) = queued_fadein c"
  "queued_tight (start_stream fr c b) = queued_tight c"
  "queued_start_ms (start_stream fr c b) = queued_start_ms c"
  "queued_relative_volume (start_stream fr c b) = queued_relative_volume c"
  "paused (start_stream fr c b) = paused c"
  "mixer_volume (start_stream fr c b) = mixer_volume c"
  "secondary_volume (start_stream fr c b) = secondary_volume c"
  "event (start_stream fr c b) = event c"
  "pan (start_stream fr c b) = pan c"
  "video (start_stream fr c b) = video c"
  "pos (start_stream fr c b) = 0"
  by (simp_all add: start_stream_def Let_def)

lemma start_stream_fade:
  "fade (start_stream fr c b) =
     (if b then \<lparr>i_done = 0, i_duration = ms_to_samples fr (playing_fadein c), i_start = 0, i_end = 1\<rparr>
      else fade c)"
  "stop_samples (start_stream fr c b) = (if b then - 1 else stop_samples c)"
  by (simp_all add: start_stream_def Let_def)

subsection \<open>C1: promotion at the end of a stream\<close>

text \<open>
  C1. In a pass of the channel loop of the callback, when the playing stream ends (the
  decoder returns no whole frame, or \<open>stop_samples\<close> is 0), the queued slot's fields
  (stream, name, fadein, tight, start\_ms, relative\_volume) are moved into the playing
  slot, the queued fields are set to their defaults, \<open>pos\<close> is 0, and the fade is set to
  ramp from 0 to 1 over \<open>ms_to_samples\<close> of the new \<open>playing_fadein\<close>, with \<open>stop_samples\<close>
  set to -1, if and only if the old playing stream was not tight or the promoted stream
  has a non-zero fade-in; otherwise the fade and \<open>stop_samples\<close> are unchanged. The ended
  decoder goes to the dying list, the event is posted, \<open>mixed\<close> and the mix buffer are
  unchanged, and the loop goes on with the promoted channel.
\<close>

theorem promotion_at_end_of_stream:
  assumes "playing c = Some p"
    and "media_read_audio D p ((len - mixed) * 2 * 2) = (data, p')"
    and "length data \<le> (len - mixed) * 2"
    and "stop_samples c = 0 \<or> length data div 2 = 0"
  shows "\<exists>c'. channel_iter D rnd fr len (c, mixed, mb, sb, dy, ev) =
             Some (c', mixed, mb, data @ drop (length data) sb, p' # dy, post_event c ev)
    \<and> playing c' = queued c \<and> playing_name c' = queued_name c
    \<and> playing_fadein c' = queued_fadein c \<and> playing_tight c' = queued_tight c
    \<and> playing_start_ms c' = queued_start_ms c
    \<and> playing_relative_volume c' = queued_relative_volume c
    \<and> queued c' = None \<and> queued_name c' = None \<and> queued_fadein c' = 0
    \<and> queued_tight c' = 0 \<and> queued_start_ms c' = 0 \<and> queued_relative_volume c' = 1
    \<and> pos c' = 0
    \<and> (if playing_tight c = 0 \<or> queued_fadein c \<noteq> 0
        then fade c' = \<lparr>i_done = 0, i_duration = ms_to_samples fr (queued_fadein c),
                         i_start = 0, i_end = 1\<rparr>
           \<and> stop_samples c' = - 1
        else fade c' = fade c \<and> stop_samples c' = stop_samples c)
    \<and> paused c' = paused c \<and> mixer_volume c' = mixer_volume c
    \<and> secondary_volume c' = secondary_volume c \<and> pan c' = pan c
    \<and> event c' = event c \<and> video c' = video c
    \<and> (mixed < len \<longrightarrow>
         channel_loop D rnd fr len (c, mixed, mb, sb, dy, ev) =
         channel_loop D rnd fr len
           (c', mixed, mb, data @ drop (length data) sb, p' # dy, post_event c ev))"
proof -
  let ?c' = "start_stream fr (promote c) (playing_tight c = 0 \<or> queued_fadein c \<noteq> 0)"
  have it: "channel_iter D rnd fr len (c, mixed, mb, sb, dy, ev) =
      Some (?c', mixed, mb, data @ drop (length data) sb, p' # dy, post_event c ev)"
    using assms by (rule channel_iter_promote)
  have loop: "mixed < len \<longrightarrow>
         channel_loop D rnd fr len (c, mixed, mb, sb, dy, ev) =
         channel_loop D rnd fr len
           (?c', mixed, mb, data @ drop (length data) sb, p' # dy, post_event c ev)"
    using assms(1) by (subst channel_loop.simps) (simp add: it)
  have fields: "playing ?c' = queued c" "playing_name ?c' = queued_name c"
    "playing_fadein ?c' = queued_fadein c" "playing_tight ?c' = queued_tight c"
    "playing_start_ms ?c' = queued_start_ms c"
    "playing_relative_volume ?c' = queued_relative_volume c"
    "queued ?c' = None" "queued_name ?c' = None" "queued_fadein ?c' = 0"
    "queued_tight ?c' = 0" "queued_start_ms ?c' = 0" "queued_relative_volume ?c' = 1"
    "pos ?c' = 0" "paused ?c' = paused c" "mixer_volume ?c' = mixer_volume c"
    "secondary_volume ?c' = secondary_volume c" "pan ?c' = pan c"
    "event ?c' = event c" "video ?c' = video c"
    by (simp_all add: promote_def)
  have fd: "if playing_tight c = 0 \<or> queued_fadein c \<noteq> 0
        then fade ?c' = \<lparr>i_done = 0, i_duration = ms_to_samples fr (queued_fadein c),
                         i_start = 0, i_end = 1\<rparr>
           \<and> stop_samples ?c' = - 1
        else fade ?c' = fade c \<and> stop_samples ?c' = stop_samples c"
    by (simp add: start_stream_fade promote_def)
  show ?thesis
    apply (rule exI [of _ ?c'])
    apply (intro conjI)
    apply (rule it)
    apply (rule fields fd loop)+
    done
qed


theorem promotion_at_end_of_stream_witness:
  "(\<exists>c'. channel_iter test_decoder exact 44100 2 (chan_a, 0, [0, 0, 0, 0], [7, 7, 7, 7], [], []) =
           Some (c', 0, [0, 0, 0, 0], [7, 7, 7, 7], [[]], [])
      \<and> playing c' = Some [[1, 2]] \<and> playing_name c' = Some ''b'' \<and> playing_start_ms c' = 500
      \<and> queued c' = None \<and> pos c' = 0 \<and> fade c' = fade chan_a \<and> stop_samples c' = - 1)
   \<and> (\<exists>c'. channel_iter test_decoder exact 44100 2
             (chan_a\<lparr>queued_fadein := 1000, stop_samples := 0\<rparr>, 0, [0, 0, 0, 0], [7, 7, 7, 7], [], []) =
           Some (c', 0, [0, 0, 0, 0], [7, 7, 7, 7], [[]], [])
      \<and> playing c' = Some [[1, 2]] \<and> playing_fadein c' = 1000
      \<and> fade c' = \<lparr>i_done = 0, i_duration = 44100, i_start = 0, i_end = 1\<rparr>
      \<and> stop_samples c' = - 1)"
proof -
  have rd: "media_read_audio test_decoder [] ((2 - 0) * 2 * 2) = ([], [])"
    by (simp add: test_decoder_def)
  have vals: "queued chan_a = Some [[1, 2]]" "queued_name chan_a = Some ''b''"
    "queued_start_ms chan_a = 500" "playing_tight chan_a = 1" "queued_fadein chan_a = 0"
    "stop_samples chan_a = - 1" "event chan_a = 0"
    by (simp_all add: chan_a_def new_channel_def)
  have "playing chan_a = Some []" by (simp add: chan_a_def)
  from promotion_at_end_of_stream [OF this rd, of exact 44100 "[0, 0, 0, 0]" "[7, 7, 7, 7]" "[]" "[]"]
  have first: "\<exists>c'. channel_iter test_decoder exact 44100 2
        (chan_a, 0, [0, 0, 0, 0], [7, 7, 7, 7], [], []) =
           Some (c', 0, [0, 0, 0, 0], [7, 7, 7, 7], [[]], [])
      \<and> playing c' = Some [[1, 2]] \<and> playing_name c' = Some ''b'' \<and> playing_start_ms c' = 500
      \<and> queued c' = None \<and> pos c' = 0 \<and> fade c' = fade chan_a \<and> stop_samples c' = - 1"
    by (simp add: vals post_event_def) blast
  let ?c = "chan_a\<lparr>queued_fadein := 1000, stop_samples := 0\<rparr>"
  have "playing ?c = Some []" by (simp add: chan_a_def)
  from promotion_at_end_of_stream [OF this rd, of exact 44100 "[0, 0, 0, 0]" "[7, 7, 7, 7]" "[]" "[]"]
  have second: "\<exists>c'. channel_iter test_decoder exact 44100 2
        (?c, 0, [0, 0, 0, 0], [7, 7, 7, 7], [], []) =
           Some (c', 0, [0, 0, 0, 0], [7, 7, 7, 7], [[]], [])
      \<and> playing c' = Some [[1, 2]] \<and> playing_fadein c' = 1000
      \<and> fade c' = \<lparr>i_done = 0, i_duration = 44100, i_start = 0, i_end = 1\<rparr>
      \<and> stop_samples c' = - 1"
    by (simp add: vals post_event_def ms_to_samples_def signed_divide_int_def) blast
  from first second show ?thesis by (rule conjI)
qed

subsection \<open>What one pass of the channel loop can be\<close>

lemma channel_iter_SomeE:
  assumes "channel_iter D rnd fr len (c, mixed, mb, sb, dy, ev) = Some s'"
  obtains (promotion) p data p' where "playing c = Some p"
      "media_read_audio D p ((len - mixed) * 2 * 2) = (data, p')"
      "length data \<le> (len - mixed) * 2"
      "stop_samples c = 0 \<or> length data div 2 = 0"
      "s' = (start_stream fr (promote c) (playing_tight c = 0 \<or> queued_fadein c \<noteq> 0),
             mixed, mb, data @ drop (length data) sb, p' # dy, post_event c ev)"
  | (mixing) p data p' where "playing c = Some p"
      "media_read_audio D p ((len - mixed) * 2 * 2) = (data, p')"
      "length data \<le> (len - mixed) * 2"
      "stop_samples c \<noteq> 0" "length data div 2 \<noteq> 0"
      "s' = (fst (mix_frames rnd (data @ drop (length data) sb) (length data div 2)
                    (c\<lparr>playing := Some p'\<rparr>, mixed, mb)),
             fst (snd (mix_frames rnd (data @ drop (length data) sb) (length data div 2)
                    (c\<lparr>playing := Some p'\<rparr>, mixed, mb))),
             snd (snd (mix_frames rnd (data @ drop (length data) sb) (length data div 2)
                    (c\<lparr>playing := Some p'\<rparr>, mixed, mb))),
             data @ drop (length data) sb, dy, ev)"
proof -
  from assms obtain p where p: "playing c = Some p"
    by (auto simp: channel_iter_def split: option.splits)
  obtain data p' where rd: "media_read_audio D p ((len - mixed) * 2 * 2) = (data, p')"
    by (cases "media_read_audio D p ((len - mixed) * 2 * 2)")
  have le: "length data \<le> (len - mixed) * 2"
    using channel_iter_overrun [OF p, of len mixed D rnd fr mb sb dy ev] assms rd
    by (cases "length data \<le> (len - mixed) * 2") simp_all
  show thesis
  proof (cases "stop_samples c = 0 \<or> length data div 2 = 0")
    case True
    from assms show thesis
      unfolding channel_iter_promote [OF p rd le True]
      by (intro promotion [OF p rd le True]) simp
  next
    case False
    then have ne: "stop_samples c \<noteq> 0" "length data div 2 \<noteq> 0" by simp_all
    from assms show thesis
      unfolding channel_iter_mix [OF p rd le ne]
      by (intro mixing [OF p rd le ne]) (simp add: Let_def)
  qed
qed

lemma mix_frames_gain_free:
  "stop_samples c = stop_samples c2 \<Longrightarrow>
   snd (mix_frames rnd sb n (c, mixed, mb)) = snd (mix_frames rnd sb n (c2, mixed, mb))"
proof (induction n arbitrary: c c2 mixed mb)
  case 0
  then show ?case by simp
next
  case (Suc n)
  show ?case
  proof (cases "stop_samples c = 0")
    case True
    with Suc.prems show ?thesis by (simp add: mix_frames_stopped)
  next
    case False
    with Suc.prems have ne2: "stop_samples c2 \<noteq> 0" by simp
    show ?thesis
      unfolding mix_frames_Suc [OF False] mix_frames_Suc [OF ne2]
      by (rule Suc.IH) (simp add: Suc.prems)
  qed
qed

subsection \<open>What the inner loop adds to the mix buffer\<close>

text \<open>
  For every frame the inner loop accumulates, the value added to each entry of the
  float mix buffer is the signed 16-bit sample read from the stream buffer at the index
  of that entry, divided by 32768 (the sum is then rounded to a float). None of
  \<open>mixer_volume\<close>, \<open>secondary_volume\<close>, \<open>fade\<close>, \<open>pan\<close> or \<open>playing_relative_volume\<close> enters:
  the loop gives the same buffer whatever they hold. The entries of the other frames are
  unchanged. Whether the sample read is the one the decoder produced for the frame is
  another matter: see C3 and C10 below.
\<close>

lemma mix_frames_adds_buffer_sample:
  assumes "mix_frames rnd sb n (c, mixed, mb) = (c', mixed', mb')"
    and "mixed' * 2 \<le> length mb"
  shows "(\<forall>i. mixed \<le> i \<and> i < mixed' \<longrightarrow>
            mb' ! (i * 2) = rnd (mb ! (i * 2) + real_of_int (sint (sb ! (i * 2))) / 32768)
          \<and> mb' ! (i * 2 + 1) =
              rnd (mb ! (i * 2 + 1) + real_of_int (sint (sb ! (i * 2 + 1))) / 32768))
       \<and> (\<forall>i. i < mixed * 2 \<or> mixed' * 2 \<le> i \<longrightarrow> mb' ! i = mb ! i)
       \<and> (\<forall>mv sv fd pn rv.
            snd (mix_frames rnd sb n
                   (c\<lparr>mixer_volume := mv, secondary_volume := sv, fade := fd, pan := pn,
                      playing_relative_volume := rv\<rparr>, mixed, mb)) = (mixed', mb'))
       \<and> (\<forall>cx l r lo ro. mix_sample rnd cx l r (lo, ro) =
            (rnd (lo + real_of_int (sint l) / 32768), rnd (ro + real_of_int (sint r) / 32768)))"
proof -
  let ?k = "frames_mixed (stop_samples c) n"
  from assms(1) have m': "mixed' = mixed + ?k"
    using mix_frames_mixed [of rnd sb n c mixed mb] by simp
  from assms(1) have mb': "mb' = snd (snd (mix_frames rnd sb n (c, mixed, mb)))" by simp
  have a: "mb' ! (i * 2) = rnd (mb ! (i * 2) + real_of_int (sint (sb ! (i * 2))) / 32768)
          \<and> mb' ! (i * 2 + 1) =
              rnd (mb ! (i * 2 + 1) + real_of_int (sint (sb ! (i * 2 + 1))) / 32768)"
    if "mixed \<le> i \<and> i < mixed'" for i
  proof -
    from that obtain j where j: "i = mixed + j" "j < ?k"
      using m' by (metis add_less_cancel_left le_Suc_ex)
    from mix_frames_at [OF j(2), of mixed mb rnd sb] assms(2) show ?thesis
      by (simp add: mb' j(1) m')
  qed
  have b: "mb' ! i = mb ! i" if "i < mixed * 2 \<or> mixed' * 2 \<le> i" for i
    using that mix_frames_outside [of i mixed c n rnd sb mb] by (simp add: mb' m')
  have c: "snd (mix_frames rnd sb n
                   (c\<lparr>mixer_volume := mv, secondary_volume := sv, fade := fd, pan := pn,
                      playing_relative_volume := rv\<rparr>, mixed, mb)) = (mixed', mb')"
    for mv sv fd pn rv
    using mix_frames_gain_free [of "c\<lparr>mixer_volume := mv, secondary_volume := sv, fade := fd,
      pan := pn, playing_relative_volume := rv\<rparr>" c rnd sb n mixed mb] assms(1) by simp
  have d: "mix_sample rnd cx l r (lo, ro) =
            (rnd (lo + real_of_int (sint l) / 32768), rnd (ro + real_of_int (sint r) / 32768))"
    for cx :: "'z Channel" and l r lo ro
    by (simp add: mix_sample_def MIN_SHORT_def)
  from a b c d show ?thesis by blast
qed


subsection \<open>C4: the interpolators during mixing\<close>



lemma callback_state_b:
  "callback test_decoder exact silence 4 state_b =
     Some (state_b\<lparr>channels := [chan_b\<lparr>playing := Some [], pos := 1\<rparr>]\<rparr>, [16383, - 8191])"
proof -
  have r: "replicate 2 (0 :: real) = [0, 0]" by (simp add: numeral_2_eq_2)
  show ?thesis
    by (simp add: callback_def state_b_def initial_state_def chan_b_def new_channel_def
      channel_iter_def test_decoder_def Let_def mix_sample_def MIN_SHORT_def MAX_SHORT_def
      exact_def silence_def word_sless_alt output_sample_def float_to_int_def c_trunc_def r)
qed







subsection \<open>C10: where the inner loop reads the stream buffer\<close>

text \<open>A callback of four frames on a decoder that gives one frame, then three.\<close>

lemma channel_iter_chan_d_first:
  "channel_iter test_decoder exact 44100 4
     (chan_d, 0, [0, 0, 0, 0, 0, 0, 0, 0], [0, 0, 0, 0, 0, 0, 0, 0], [], []) =
   Some (chan_d\<lparr>playing := Some [[4096, 8192, 12288, 16384, 20480, 24576]], pos := 1\<rparr>, 1,
         [1 / 2, - (1 / 4), 0, 0, 0, 0, 0, 0], [16384, - 8192, 0, 0, 0, 0, 0, 0], [], [])"
  by (simp add: chan_d_def new_channel_def channel_iter_def test_decoder_def Let_def
      mix_sample_def MIN_SHORT_def exact_def word_sless_alt)


lemma mix_frames_unbounded:
  "stop_samples c = - 1 \<Longrightarrow>
   mix_frames rnd sb (Suc n) (c, mixed, mb) =
     mix_frames rnd sb n
       (c\<lparr>pos := pos c + 1\<rparr>, Suc mixed,
        mb[mixed * 2 := rnd (mb ! (mixed * 2) + real_of_int (sint (sb ! (mixed * 2))) / 32768),
           mixed * 2 + 1 :=
             rnd (mb ! (mixed * 2 + 1) + real_of_int (sint (sb ! (mixed * 2 + 1))) / 32768)])"
proof -
  assume a: "stop_samples c = - 1"
  then have "c\<lparr>stop_samples := - 1\<rparr> = c" by (cases c) simp
  then have e: "c\<lparr>stop_samples := - 1, pos := pos c + 1\<rparr> = c\<lparr>pos := pos c + 1\<rparr>"
    by simp
  from a have ne: "stop_samples c \<noteq> 0" by simp
  from a have s: "(if 0 <s stop_samples c then stop_samples c - 1 else stop_samples c) = - 1"
    by (simp add: word_sless_alt)
  show ?thesis
    unfolding mix_frames_Suc [OF ne] s e ..
qed

lemma mix_frames_chan_d_second:
  "mix_frames exact [4096, 8192, 12288, 16384, 20480, 24576, 0, 0] (Suc (Suc (Suc 0)))
     (chan_d\<lparr>playing := Some [], pos := 1\<rparr>, Suc 0, [1 / 2, - (1 / 4), 0, 0, 0, 0, 0, 0]) =
   (chan_d\<lparr>playing := Some [], pos := 4\<rparr>, 4,
    [1 / 2, - (1 / 4), 3 / 8, 1 / 2, 5 / 8, 3 / 4, 0, 0])"
proof -
  have st: "stop_samples (chan_d\<lparr>playing := p, pos := q\<rparr>) = - 1" for p q
    by (simp add: chan_d_def)
  show ?thesis
    by (simp add: mix_frames_unbounded st exact_def del: mix_frames.simps(2))
qed

lemma channel_iter_chan_d_second:
  "channel_iter test_decoder exact 44100 4
     (chan_d\<lparr>playing := Some [[4096, 8192, 12288, 16384, 20480, 24576]], pos := 1\<rparr>, Suc 0,
      [1 / 2, - (1 / 4), 0, 0, 0, 0, 0, 0], [16384, - 8192, 0, 0, 0, 0, 0, 0], [], []) =
   Some (chan_d\<lparr>playing := Some [], pos := 4\<rparr>, 4,
         [1 / 2, - (1 / 4), 3 / 8, 1 / 2, 5 / 8, 3 / 4, 0, 0],
         [4096, 8192, 12288, 16384, 20480, 24576, 0, 0], [], [])"
proof -
  let ?c = "chan_d\<lparr>playing := Some [[4096, 8192, 12288, 16384, 20480, 24576]], pos := 1\<rparr>"
  have p: "playing ?c = Some [[4096, 8192, 12288, 16384, 20480, 24576]]" by simp
  have rd: "media_read_audio test_decoder [[4096, 8192, 12288, 16384, 20480, 24576]]
      ((4 - Suc 0) * 2 * 2) = ([4096, 8192, 12288, 16384, 20480, 24576], [])"
    by (simp add: test_decoder_def)
  have le: "length [4096, 8192, 12288, 16384, 20480, 24576 :: c_short] \<le> (4 - Suc 0) * 2" by simp
  have ne: "stop_samples ?c \<noteq> 0"
    "length [4096, 8192, 12288, 16384, 20480, 24576 :: c_short] div 2 \<noteq> 0"
    by (simp_all add: chan_d_def)
  have n: "length [4096, 8192, 12288, 16384, 20480, 24576 :: c_short] div 2 = Suc (Suc (Suc 0))"
    by simp
  have c: "?c\<lparr>playing := Some []\<rparr> = chan_d\<lparr>playing := Some [], pos := 1\<rparr>" by simp
  have sbe: "[4096, 8192, 12288, 16384, 20480, 24576] @
      drop (length [4096, 8192, 12288, 16384, 20480, 24576 :: c_short])
        [16384, - 8192, 0, 0, 0, 0, 0, 0] =
      [4096, 8192, 12288, 16384, 20480, 24576, 0, 0 :: c_short]"
    by simp
  show ?thesis
    unfolding channel_iter_mix [OF p rd le ne] n Let_def sbe c mix_frames_chan_d_second
    by (simp only: fst_conv snd_conv)
qed


lemma callback_state_d:
  "callback test_decoder exact silence 16 state_d =
     Some (state_d\<lparr>channels := [chan_d\<lparr>playing := Some [], pos := 4\<rparr>]\<rparr>,
           [16383, - 8191, 12287, 16383, 20479, 24575, 0, 0])"
proof -
  have r: "replicate 8 (0 :: real) = [0, 0, 0, 0, 0, 0, 0, 0]" by (simp add: numeral_eq_Suc)
  have s: "map silence [0 ..< 8] = [0, 0, 0, 0, 0, 0, 0, 0]"
    by (simp add: silence_def numeral_eq_Suc)
  have c: "channels state_d = [chan_d]" "playing chan_d \<noteq> None" "paused chan_d = 0"
    "dying state_d = []" "events state_d = []" "freq state_d = 44100"
    by (simp_all add: state_d_def chan_d_def initial_state_def new_channel_def)
  have o: "those (map (output_sample exact) [1 / 2, - (1 / 4), 3 / 8, 1 / 2, 5 / 8, 3 / 4, 0, 0]) =
      Some [16383, - 8191, 12287, 16383, 20479, 24575, 0, 0]"
    by (simp add: output_sample_def float_to_int_def c_trunc_def MAX_SHORT_def MIN_SHORT_def
        exact_def Let_def)
  have l: "channel_loop test_decoder exact 44100 4
     (chan_d, 0, [0, 0, 0, 0, 0, 0, 0, 0], [0, 0, 0, 0, 0, 0, 0, 0], [], []) =
     Some (chan_d\<lparr>playing := Some [], pos := 4\<rparr>, 4,
         [1 / 2, - (1 / 4), 3 / 8, 1 / 2, 5 / 8, 3 / 4, 0, 0],
         [4096, 8192, 12288, 16384, 20480, 24576, 0, 0], [], [])"
    by (simp add: channel_iter_chan_d_first channel_iter_chan_d_second c)
  have mc: "mix_channels test_decoder exact 44100 4 [chan_d]
      ([0, 0, 0, 0, 0, 0, 0, 0], [0, 0, 0, 0, 0, 0, 0, 0], [], []) =
     Some ([chan_d\<lparr>playing := Some [], pos := 4\<rparr>],
         [1 / 2, - (1 / 4), 3 / 8, 1 / 2, 5 / 8, 3 / 4, 0, 0],
         [4096, 8192, 12288, 16384, 20480, 24576, 0, 0], [], [])"
    by (simp add: c l del: channel_loop.simps)
  have len: "16 div 4 = (4 :: nat)" "(4 :: nat) * 2 = 8" by simp_all
  have e: "state_d\<lparr>channels := cs, dying := [], events := []\<rparr> = state_d\<lparr>channels := cs\<rparr>"
    for cs by (simp add: state_d_def initial_state_def)
  show ?thesis
    unfolding callback_def Let_def len r s c mc option.case prod.case o e ..
qed

text \<open>
  C10, as amended. In a mixing pass of the channel loop the decoder writes its samples
  from index 0 of the stream buffer, and the inner loop reads frame \<open>j\<close> of the pass at
  the indices \<open>(mixed + j) * 2\<close> and \<open>(mixed + j) * 2 + 1\<close>, where \<open>mixed\<close> counts the frames
  already mixed for the channel in this callback. So the sample accumulated is the
  decoder's sample at that index when the read was long enough to reach it, and what the
  buffer held before the read otherwise. When \<open>mixed\<close> is 0 at the read, every frame
  accumulated is the decoder's frame of the same rank.
\<close>

theorem stream_buffer_read_offset:
  assumes "playing c = Some p"
    and "media_read_audio D p ((len - mixed) * 2 * 2) = (data, p')"
    and "length data \<le> (len - mixed) * 2"
    and "stop_samples c \<noteq> 0" and "length data div 2 \<noteq> 0"
    and "length mb = len * 2" and "length sb = len * 2"
  shows "\<exists>c' mixed' mb'.
      channel_iter D rnd fr len (c, mixed, mb, sb, dy, ev) =
        Some (c', mixed', mb', data @ drop (length data) sb, dy, ev)
    \<and> mixed < mixed' \<and> mixed' \<le> mixed + length data div 2
    \<and> (\<forall>i. (data @ drop (length data) sb) ! i = (if i < length data then data ! i else sb ! i))
    \<and> (\<forall>j. mixed + j < mixed' \<longrightarrow>
          mb' ! ((mixed + j) * 2) =
            rnd (mb ! ((mixed + j) * 2) +
                 real_of_int (sint (if (mixed + j) * 2 < length data
                                    then data ! ((mixed + j) * 2)
                                    else sb ! ((mixed + j) * 2))) / 32768)
        \<and> mb' ! ((mixed + j) * 2 + 1) =
            rnd (mb ! ((mixed + j) * 2 + 1) +
                 real_of_int (sint (if (mixed + j) * 2 + 1 < length data
                                    then data ! ((mixed + j) * 2 + 1)
                                    else sb ! ((mixed + j) * 2 + 1))) / 32768))
    \<and> (mixed = 0 \<longrightarrow>
         (\<forall>j < mixed'.
            mb' ! (j * 2) = rnd (mb ! (j * 2) + real_of_int (sint (data ! (j * 2))) / 32768)
          \<and> mb' ! (j * 2 + 1) =
              rnd (mb ! (j * 2 + 1) + real_of_int (sint (data ! (j * 2 + 1))) / 32768)))"
proof -
  let ?sb = "data @ drop (length data) sb"
  let ?n = "length data div 2"
  let ?r = "mix_frames rnd ?sb ?n (c\<lparr>playing := Some p'\<rparr>, mixed, mb)"
  let ?k = "frames_mixed (stop_samples c) ?n"
  have it: "channel_iter D rnd fr len (c, mixed, mb, sb, dy, ev) =
      Some (fst ?r, fst (snd ?r), snd (snd ?r), ?sb, dy, ev)"
    using channel_iter_mix [OF assms(1-5)] by (simp add: Let_def)
  have m': "fst (snd ?r) = mixed + ?k" by (simp add: mix_frames_mixed)
  have kpos: "0 < ?k" using assms(4,5) by (intro frames_mixed_pos) auto
  have kle: "?k \<le> ?n" by (rule frames_mixed_le)
  have inlen: "(mixed + ?k) * 2 \<le> length mb" using kle assms(3,5,6) by auto
  have buf: "?sb ! i = (if i < length data then data ! i else sb ! i)" for i
    using assms(3,7) by (auto simp: nth_append)
  have at: "snd (snd ?r) ! ((mixed + j) * 2) =
            rnd (mb ! ((mixed + j) * 2) +
                 real_of_int (sint (if (mixed + j) * 2 < length data
                                    then data ! ((mixed + j) * 2)
                                    else sb ! ((mixed + j) * 2))) / 32768)
        \<and> snd (snd ?r) ! ((mixed + j) * 2 + 1) =
            rnd (mb ! ((mixed + j) * 2 + 1) +
                 real_of_int (sint (if (mixed + j) * 2 + 1 < length data
                                    then data ! ((mixed + j) * 2 + 1)
                                    else sb ! ((mixed + j) * 2 + 1))) / 32768)"
    if "mixed + j < fst (snd ?r)" for j
  proof -
    from that have "j < frames_mixed (stop_samples (c\<lparr>playing := Some p'\<rparr>)) ?n"
      by (simp add: m')
    from mix_frames_at [OF this, of mixed mb rnd ?sb] inlen show ?thesis
      by (simp only: buf) simp
  qed
  have zero: "snd (snd ?r) ! (j * 2) = rnd (mb ! (j * 2) + real_of_int (sint (data ! (j * 2))) / 32768)
          \<and> snd (snd ?r) ! (j * 2 + 1) =
              rnd (mb ! (j * 2 + 1) + real_of_int (sint (data ! (j * 2 + 1))) / 32768)"
    if "mixed = 0" "j < fst (snd ?r)" for j
  proof -
    from that(2) have "j < ?k" using m' that(1) by simp
    with kle have "j * 2 + 1 < length data" by arith
    with at [of j] that show ?thesis by simp
  qed
  have M: "mixed < fst (snd ?r)" "fst (snd ?r) \<le> mixed + ?n"
    using m' kpos kle by simp_all
  have B: "\<forall>i. ?sb ! i = (if i < length data then data ! i else sb ! i)"
    using buf by blast
  have A: "\<forall>j. mixed + j < fst (snd ?r) \<longrightarrow>
          snd (snd ?r) ! ((mixed + j) * 2) =
            rnd (mb ! ((mixed + j) * 2) +
                 real_of_int (sint (if (mixed + j) * 2 < length data
                                    then data ! ((mixed + j) * 2)
                                    else sb ! ((mixed + j) * 2))) / 32768)
        \<and> snd (snd ?r) ! ((mixed + j) * 2 + 1) =
            rnd (mb ! ((mixed + j) * 2 + 1) +
                 real_of_int (sint (if (mixed + j) * 2 + 1 < length data
                                    then data ! ((mixed + j) * 2 + 1)
                                    else sb ! ((mixed + j) * 2 + 1))) / 32768)"
    using at by blast
  have Z: "mixed = 0 \<longrightarrow>
         (\<forall>j < fst (snd ?r).
            snd (snd ?r) ! (j * 2) = rnd (mb ! (j * 2) + real_of_int (sint (data ! (j * 2))) / 32768)
          \<and> snd (snd ?r) ! (j * 2 + 1) =
              rnd (mb ! (j * 2 + 1) + real_of_int (sint (data ! (j * 2 + 1))) / 32768))"
    using zero by blast
  show ?thesis
    apply (intro exI conjI)
         apply (rule it)
        apply (rule M(1))
       apply (rule M(2))
      apply (rule B)
     apply (rule A)
    apply (rule Z)
    done
qed


theorem stream_buffer_read_offset_witness:
  "channel_iter test_decoder exact 44100 4
     (chan_d\<lparr>playing := Some [[4096, 8192, 12288, 16384, 20480, 24576]], pos := 1\<rparr>, Suc 0,
      [1 / 2, - (1 / 4), 0, 0, 0, 0, 0, 0], [16384, - 8192, 0, 0, 0, 0, 0, 0], [], []) =
     Some (chan_d\<lparr>playing := Some [], pos := 4\<rparr>, 4,
         [1 / 2, - (1 / 4), 3 / 8, 1 / 2, 5 / 8, 3 / 4, 0, 0],
         [4096, 8192, 12288, 16384, 20480, 24576, 0, 0], [], [])
   \<and> [1 / 2, - (1 / 4), 3 / 8, 1 / 2, 5 / 8, 3 / 4, 0, 0 :: real] ! 2 =
       exact (0 + real_of_int (sint (12288 :: c_short)) / 32768)
   \<and> [1 / 2, - (1 / 4), 3 / 8, 1 / 2, 5 / 8, 3 / 4, 0, 0 :: real] ! 2 \<noteq>
       exact (0 + real_of_int (sint (4096 :: c_short)) / 32768)
   \<and> [1 / 2, - (1 / 4), 3 / 8, 1 / 2, 5 / 8, 3 / 4, 0, 0 :: real] ! 6 =
       exact (0 + real_of_int (sint (0 :: c_short)) / 32768)"
proof -
  let ?c = "chan_d\<lparr>playing := Some [[4096, 8192, 12288, 16384, 20480, 24576]], pos := 1\<rparr>"
  let ?data = "[4096, 8192, 12288, 16384, 20480, 24576 :: c_short]"
  let ?mb = "[1 / 2, - (1 / 4), 0, 0, 0, 0, 0, 0 :: real]"
  let ?sb = "[16384, - 8192, 0, 0, 0, 0, 0, 0 :: c_short]"
  have p: "playing ?c = Some [?data]" by simp
  have rd: "media_read_audio test_decoder [?data] ((4 - Suc 0) * 2 * 2) = (?data, [])"
    by (simp add: test_decoder_def)
  have le: "length ?data \<le> (4 - Suc 0) * 2" by simp
  have ne: "stop_samples ?c \<noteq> 0" "length ?data div 2 \<noteq> 0"
    by (simp_all add: chan_d_def)
  have lm: "length ?mb = 4 * 2" "length ?sb = 4 * 2" by simp_all
  from stream_buffer_read_offset [OF p rd le ne lm, of exact 44100 "[]" "[]"]
  obtain c' mixed' mb' where
    it: "channel_iter test_decoder exact 44100 4 (?c, Suc 0, ?mb, ?sb, [], []) =
           Some (c', mixed', mb', ?data @ drop (length ?data) ?sb, [], [])"
    and fr: "\<forall>j. Suc 0 + j < mixed' \<longrightarrow>
          mb' ! ((Suc 0 + j) * 2) =
            exact (?mb ! ((Suc 0 + j) * 2) +
                 real_of_int (sint (if (Suc 0 + j) * 2 < length ?data
                                    then ?data ! ((Suc 0 + j) * 2)
                                    else ?sb ! ((Suc 0 + j) * 2))) / 32768)
        \<and> mb' ! ((Suc 0 + j) * 2 + 1) =
            exact (?mb ! ((Suc 0 + j) * 2 + 1) +
                 real_of_int (sint (if (Suc 0 + j) * 2 + 1 < length ?data
                                    then ?data ! ((Suc 0 + j) * 2 + 1)
                                    else ?sb ! ((Suc 0 + j) * 2 + 1))) / 32768)"
    by blast
  from it have eqs: "mixed' = 4" "mb' = [1 / 2, - (1 / 4), 3 / 8, 1 / 2, 5 / 8, 3 / 4, 0, 0]"
    unfolding channel_iter_chan_d_second by simp_all
  from fr [rule_format, of 0] fr [rule_format, of 2] eqs
  have "mb' ! 2 = exact (0 + real_of_int (sint (12288 :: c_short)) / 32768)"
    "mb' ! 6 = exact (0 + real_of_int (sint (0 :: c_short)) / 32768)"
    by simp_all
  with eqs channel_iter_chan_d_second show ?thesis
    by (simp add: exact_def)
qed


text \<open>
  The claim as first stated says that the frames accumulated after the first read come
  from positions other than those just written. In the second pass above the read writes
  the samples 0 to 5 of the buffer, and the frame accumulated at frame index 1 is made of
  the samples 2 and 3, which that read has just written.
\<close>

theorem stream_buffer_positions_counterexample:
  "media_read_audio test_decoder [[4096, 8192, 12288, 16384, 20480, 24576]] ((4 - 1) * 2 * 2) =
     ([4096, 8192, 12288, 16384, 20480, 24576], [])
   \<and> channel_iter test_decoder exact 44100 4
     (chan_d\<lparr>playing := Some [[4096, 8192, 12288, 16384, 20480, 24576]], pos := 1\<rparr>, 1,
      [1 / 2, - (1 / 4), 0, 0, 0, 0, 0, 0], [16384, - 8192, 0, 0, 0, 0, 0, 0], [], []) =
     Some (chan_d\<lparr>playing := Some [], pos := 4\<rparr>, 4,
         [1 / 2, - (1 / 4), 3 / 8, 1 / 2, 5 / 8, 3 / 4, 0, 0],
         [4096, 8192, 12288, 16384, 20480, 24576, 0, 0], [], [])
   \<and> 1 * 2 + 1 < length [4096, 8192, 12288, 16384, 20480, 24576 :: c_short]
   \<and> [1 / 2, - (1 / 4), 3 / 8, 1 / 2, 5 / 8, 3 / 4, 0, 0 :: real] ! (1 * 2) =
       exact (0 + real_of_int (sint ([4096, 8192, 12288, 16384, 20480, 24576 :: c_short] ! (1 * 2))) / 32768)
   \<and> [1 / 2, - (1 / 4), 3 / 8, 1 / 2, 5 / 8, 3 / 4, 0, 0 :: real] ! (1 * 2 + 1) =
       exact (0 + real_of_int (sint ([4096, 8192, 12288, 16384, 20480, 24576 :: c_short] ! (1 * 2 + 1))) / 32768)"
  using channel_iter_chan_d_second by (simp add: test_decoder_def exact_def)


subsection \<open>C5: the conversion to 16-bit output\<close>

lemma float_to_int_trunc:
  "float_to_int x =
     (if - (2 ^ 31) \<le> c_trunc x \<and> c_trunc x < 2 ^ 31 then Some (word_of_int (c_trunc x)) else None)"
  by (simp add: float_to_int_def Let_def)

lemma sint_int32:
  "- (2 ^ 31) \<le> t \<Longrightarrow> t < 2 ^ 31 \<Longrightarrow> sint (word_of_int t :: c_int) = t"
  by (simp add: signed_of_int signed_take_bit_int_eq_self)

lemma sint_short_of_int32:
  "- 32768 \<le> t \<Longrightarrow> t \<le> 32767 \<Longrightarrow> sint (ucast (word_of_int t :: c_int) :: c_short) = t"
proof -
  assume a: "- 32768 \<le> t" "t \<le> 32767"
  have "(ucast (word_of_int t :: c_int) :: c_short) = word_of_int t"
    by (rule ucast_down_wi) (simp add: is_down)
  with a show ?thesis
    by (simp add: signed_of_int signed_take_bit_int_eq_self)
qed


lemma output_sample_trunc:
  "output_sample rnd v =
     (if - (2 ^ 31) \<le> c_trunc (rnd (v * 32767)) \<and> c_trunc (rnd (v * 32767)) < 2 ^ 31
      then Some (word_of_int (max (- 32768) (min 32767 (c_trunc (rnd (v * 32767))))))
      else None)"
proof (cases "- (2 ^ 31) \<le> c_trunc (rnd (v * 32767)) \<and> c_trunc (rnd (v * 32767)) < 2 ^ 31")
  case False
  then have f: "float_to_int (rnd (v * 32767)) = None"
    unfolding float_to_int_trunc by (rule if_not_P)
  from False show ?thesis
    unfolding output_sample_def MAX_SHORT_def by (simp add: f)
next
  case True
  let ?t = "c_trunc (rnd (v * 32767))"
  from True have s: "sint (word_of_int ?t :: c_int) = ?t" by (simp add: sint_int32)
  have d: "(ucast (word_of_int k :: c_int) :: c_short) = word_of_int k" for k
    by (rule ucast_down_wi) (simp add: is_down)
  from True have f: "float_to_int (rnd (v * 32767)) = Some (word_of_int ?t)"
    unfolding float_to_int_trunc by (rule if_P)
  have m: "sint (word_of_int 32767 :: c_int) = 32767" by simp
  from True show ?thesis
    unfolding output_sample_def MAX_SHORT_def MIN_SHORT_def
    by (simp add: f s m d Let_def max_def min_def)
qed

text \<open>
  C5, as amended. The accumulated value is multiplied by 32767 (a rounded float
  product), cut toward zero and clamped to the range from -32768 to 32767: the output
  saturates and never wraps, as long as the product fits a C \<^verbatim>\<open>int\<close> (beyond, the
  conversion is undefined). For a rounding that is monotone and keeps 32767 and -32768,
  every value of at least 1.0 is written as 32767, and every value of at most
  -32768/32767 is written as -32768.
\<close>

theorem output_sample_saturates:
  assumes "mono rnd" and "rnd 32767 = 32767" and "rnd (- 32768) = - 32768"
  shows "(1 \<le> v \<and> rnd (v * 32767) < 2 ^ 31 \<longrightarrow> output_sample rnd v = Some 32767)
       \<and> (v \<le> - (32768 / 32767) \<and> - (2 ^ 31) - 1 < rnd (v * 32767) \<longrightarrow>
            output_sample rnd v = Some (- 32768))
       \<and> (\<forall>s. output_sample rnd v = Some s \<longrightarrow>
            sint s = max (- 32768) (min 32767 (c_trunc (rnd (v * 32767)))))
       \<and> (output_sample rnd v = None \<longleftrightarrow>
            \<not> (- (2 ^ 31) \<le> c_trunc (rnd (v * 32767)) \<and> c_trunc (rnd (v * 32767)) < 2 ^ 31))"
proof -
  let ?x = "rnd (v * 32767)"
  let ?t = "c_trunc ?x"
  have hi: "output_sample rnd v = Some 32767" if "1 \<le> v" "?x < 2 ^ 31"
  proof -
    from that(1) have "32767 \<le> v * 32767" by simp
    with assms(1,2) have x: "32767 \<le> ?x" by (metis monoD)
    then have "32767 \<le> ?t" by (simp add: c_trunc_def le_floor_iff)
    moreover from x that(2) have "?t < 2 ^ 31" by (simp add: c_trunc_def floor_less_iff)
    ultimately show ?thesis by (simp add: output_sample_trunc)
  qed
  have lo: "output_sample rnd v = Some (- 32768)"
    if "v \<le> - (32768 / 32767)" "- (2 ^ 31) - 1 < ?x"
  proof -
    from that(1) have "v * 32767 \<le> - 32768" by (simp add: field_simps)
    with assms(1,3) have x: "?x \<le> - 32768" by (metis monoD)
    then have "?t \<le> - 32768" by (simp add: c_trunc_def ceiling_le_iff)
    moreover from x that(2) have "- (2 ^ 31) \<le> ?t" by (simp add: c_trunc_def le_ceiling_iff)
    ultimately show ?thesis by (simp add: output_sample_trunc)
  qed
  have sat: "sint s = max (- 32768) (min 32767 ?t)" if "output_sample rnd v = Some s" for s
  proof -
    from that have "s = word_of_int (max (- 32768) (min 32767 ?t))"
      by (simp add: output_sample_trunc split: if_splits)
    moreover have "sint (word_of_int (max (- 32768) (min 32767 ?t)) :: c_short) =
        max (- 32768) (min 32767 ?t)"
      by (simp add: signed_of_int signed_take_bit_int_eq_self)
    ultimately show ?thesis by simp
  qed
  have none: "output_sample rnd v = None \<longleftrightarrow> \<not> (- (2 ^ 31) \<le> ?t \<and> ?t < 2 ^ 31)"
    by (simp add: output_sample_trunc)
  from hi lo sat none show ?thesis by blast
qed

theorem output_sample_saturates_witness:
  "output_sample exact 1 = Some 32767 \<and> output_sample exact (3 / 2) = Some 32767
   \<and> output_sample exact (- (32768 / 32767)) = Some (- 32768)
   \<and> output_sample exact (- 2) = Some (- 32768)
   \<and> sint (32767 :: c_short) = 32767 \<and> sint (- 32768 :: c_short) = - 32768"
proof -
  have m: "mono exact" by (simp add: mono_def exact_def)
  have e: "exact 32767 = 32767" "exact (- 32768) = - 32768" by (simp_all add: exact_def)
  have h1: "(1 :: real) \<le> 1 \<and> exact (1 * 32767) < 2 ^ 31"
    and h2: "(1 :: real) \<le> 3 / 2 \<and> exact (3 / 2 * 32767) < 2 ^ 31"
    and l1: "- (32768 / 32767) \<le> - (32768 / 32767 :: real)
             \<and> - (2 ^ 31) - 1 < exact (- (32768 / 32767) * 32767)"
    and l2: "(- 2 :: real) \<le> - (32768 / 32767) \<and> - (2 ^ 31) - 1 < exact (- 2 * 32767)"
    by (simp_all add: exact_def)
  note hi = output_sample_saturates [OF m e, THEN conjunct1, rule_format]
  note lo = output_sample_saturates [OF m e, THEN conjunct2, THEN conjunct1, rule_format]
  from hi [OF h1] hi [OF h2] lo [OF l1] lo [OF l2] show ?thesis by simp
qed


text \<open>
  The claim as first stated, that every value of at most -1.0 is written as -32768,
  fails at -1.0 itself: the product is -32767, which is written as it is.
\<close>

theorem output_sample_minus_one_counterexample:
  "output_sample exact (- 1) = Some (- 32767) \<and> (- 32767 :: c_short) \<noteq> - 32768
   \<and> sint (- 32767 :: c_short) = - 32767"
  by (simp add: output_sample_trunc c_trunc_def exact_def)



subsection \<open>States reached through the control functions\<close>

text \<open>The concrete states used below are what \<open>RPS_play\<close> and \<open>RPS_queue\<close> build from
  the state of a fresh process.\<close>

lemma check_channel_first:
  "check_channel True 0 (initial_state fr) = (0, (initial_state fr)\<lparr>channels := [new_channel]\<rparr>)"
  by (simp add: check_channel_def initial_state_def num_channels_def word_sless_alt)

lemma check_channel_present:
  "channels st = c # cs \<Longrightarrow> check_channel ok 0 st = (0, st)"
  by (simp add: check_channel_def num_channels_def word_sless_alt)

lemma play_state_d:
  "RPS_play test_decoder exact True 0 [[16384, - 8192], [4096, 8192, 12288, 16384, 20480, 24576]]
     ''wav'' ''d'' 0 0 0 0 0 1 (initial_state 44100) = Some state_d"
  unfolding RPS_play_def check_channel_first prod.case
  by (simp add: load_stream_def test_decoder_def state_d_def
      chan_d_def new_channel_def initial_state_def set_chan_def float_to_int_def c_trunc_def
      exact_def start_stream_def ms_to_samples_def init_interpolate_def SUCCESS_def Let_def
      signed_divide_int_def)

lemma play_state_b:
  "RPS_play test_decoder exact True 0 [[16384, - 8192]] ''wav'' ''b'' 1000 0 0 0 0 1
     (initial_state 44100) = Some state_b"
  unfolding RPS_play_def check_channel_first prod.case
  by (simp add: load_stream_def test_decoder_def state_b_def
      chan_b_def new_channel_def initial_state_def set_chan_def float_to_int_def c_trunc_def
      exact_def start_stream_def ms_to_samples_def init_interpolate_def SUCCESS_def Let_def
      signed_divide_int_def)

lemma play_state_f:
  "RPS_play test_decoder exact True 0 [] ''bad'' ''x'' 0 0 0 0 0 1 (initial_state 44100) =
     Some state_f"
  unfolding RPS_play_def check_channel_first prod.case
  by (simp add: load_stream_def test_decoder_def state_f_def
      new_channel_def initial_state_def set_chan_def Let_def)

lemma play_queue_state_q:
  "Option.bind
     (RPS_play test_decoder exact True 0 [[1, 1]] ''wav'' ''a'' 0 1 0 0 0 1 (initial_state 44100))
     (RPS_queue test_decoder exact True 0 [[2, 2]] ''wav'' ''b'' 0 1 5 0 1) = Some state_q"
proof -
  have p: "RPS_play test_decoder exact True 0 [[1, 1]] ''wav'' ''a'' 0 1 0 0 0 1 (initial_state 44100) =
      Some ((initial_state 44100)\<lparr>channels := [chan_q\<lparr>queued := None, queued_name := None,
        queued_tight := 0, queued_start_ms := 0, queued_relative_volume := 0\<rparr>]\<rparr>)"
    unfolding RPS_play_def check_channel_first prod.case
  by (simp add: load_stream_def test_decoder_def
      chan_q_def new_channel_def initial_state_def set_chan_def float_to_int_def c_trunc_def
      exact_def start_stream_def ms_to_samples_def init_interpolate_def SUCCESS_def Let_def
      signed_divide_int_def)
  show ?thesis
    unfolding p
    by (simp add: RPS_queue_def check_channel_present load_stream_def test_decoder_def
      chan_q_def state_q_def new_channel_def initial_state_def set_chan_def float_to_int_def
      c_trunc_def exact_def SUCCESS_def Let_def)
qed


subsection \<open>C3: the sample the inner loop adds\<close>

text \<open>The callback of four frames on the decoder that gives one frame, then three, with
  the stream buffer holding 7 at entry.\<close>

lemma channel_iter_sevens_first:
  "channel_iter test_decoder exact 44100 4
     (chan_d, 0, [0, 0, 0, 0, 0, 0, 0, 0], [7, 7, 7, 7, 7, 7, 7, 7], [], []) =
   Some (chan_d\<lparr>playing := Some [[4096, 8192, 12288, 16384, 20480, 24576]], pos := 1\<rparr>, 1,
         [1 / 2, - (1 / 4), 0, 0, 0, 0, 0, 0], [16384, - 8192, 7, 7, 7, 7, 7, 7], [], [])"
  by (simp add: chan_d_def new_channel_def channel_iter_def test_decoder_def Let_def
      mix_sample_def MIN_SHORT_def exact_def word_sless_alt)

lemma mix_frames_sevens_second:
  "mix_frames exact [4096, 8192, 12288, 16384, 20480, 24576, 7, 7] (Suc (Suc (Suc 0)))
     (chan_d\<lparr>playing := Some [], pos := 1\<rparr>, Suc 0, [1 / 2, - (1 / 4), 0, 0, 0, 0, 0, 0]) =
   (chan_d\<lparr>playing := Some [], pos := 4\<rparr>, 4,
    [1 / 2, - (1 / 4), 3 / 8, 1 / 2, 5 / 8, 3 / 4, 7 / 32768, 7 / 32768])"
proof -
  have st: "stop_samples (chan_d\<lparr>playing := p, pos := q\<rparr>) = - 1" for p q
    by (simp add: chan_d_def)
  show ?thesis
    by (simp add: mix_frames_unbounded st exact_def del: mix_frames.simps(2))
qed

lemma channel_iter_sevens_second:
  "channel_iter test_decoder exact 44100 4
     (chan_d\<lparr>playing := Some [[4096, 8192, 12288, 16384, 20480, 24576]], pos := 1\<rparr>, Suc 0,
      [1 / 2, - (1 / 4), 0, 0, 0, 0, 0, 0], [16384, - 8192, 7, 7, 7, 7, 7, 7], [], []) =
   Some (chan_d\<lparr>playing := Some [], pos := 4\<rparr>, 4,
         [1 / 2, - (1 / 4), 3 / 8, 1 / 2, 5 / 8, 3 / 4, 7 / 32768, 7 / 32768],
         [4096, 8192, 12288, 16384, 20480, 24576, 7, 7], [], [])"
proof -
  let ?c = "chan_d\<lparr>playing := Some [[4096, 8192, 12288, 16384, 20480, 24576]], pos := 1\<rparr>"
  have p: "playing ?c = Some [[4096, 8192, 12288, 16384, 20480, 24576]]" by simp
  have rd: "media_read_audio test_decoder [[4096, 8192, 12288, 16384, 20480, 24576]]
      ((4 - Suc 0) * 2 * 2) = ([4096, 8192, 12288, 16384, 20480, 24576], [])"
    by (simp add: test_decoder_def)
  have le: "length [4096, 8192, 12288, 16384, 20480, 24576 :: c_short] \<le> (4 - Suc 0) * 2" by simp
  have ne: "stop_samples ?c \<noteq> 0"
    "length [4096, 8192, 12288, 16384, 20480, 24576 :: c_short] div 2 \<noteq> 0"
    by (simp_all add: chan_d_def)
  have n: "length [4096, 8192, 12288, 16384, 20480, 24576 :: c_short] div 2 = Suc (Suc (Suc 0))"
    by simp
  have c: "?c\<lparr>playing := Some []\<rparr> = chan_d\<lparr>playing := Some [], pos := 1\<rparr>" by simp
  have sbe: "[4096, 8192, 12288, 16384, 20480, 24576] @
      drop (length [4096, 8192, 12288, 16384, 20480, 24576 :: c_short])
        [16384, - 8192, 7, 7, 7, 7, 7, 7] =
      [4096, 8192, 12288, 16384, 20480, 24576, 7, 7 :: c_short]"
    by simp
  show ?thesis
    unfolding channel_iter_mix [OF p rd le ne] n Let_def sbe c mix_frames_sevens_second
    by (simp only: fst_conv snd_conv)
qed

lemma callback_sevens:
  "callback test_decoder exact sevens 16 state_d =
     Some (state_d\<lparr>channels := [chan_d\<lparr>playing := Some [], pos := 4\<rparr>]\<rparr>,
           [16383, - 8191, 12287, 16383, 20479, 24575, 6, 6])"
proof -
  have r: "replicate 8 (0 :: real) = [0, 0, 0, 0, 0, 0, 0, 0]" by (simp add: numeral_eq_Suc)
  have s: "map sevens [0 ..< 8] = [7, 7, 7, 7, 7, 7, 7, 7]"
    by (simp add: sevens_def numeral_eq_Suc)
  have c: "channels state_d = [chan_d]" "playing chan_d \<noteq> None" "paused chan_d = 0"
    "dying state_d = []" "events state_d = []" "freq state_d = 44100"
    by (simp_all add: state_d_def chan_d_def initial_state_def new_channel_def)
  have o: "those (map (output_sample exact)
        [1 / 2, - (1 / 4), 3 / 8, 1 / 2, 5 / 8, 3 / 4, 7 / 32768, 7 / 32768]) =
      Some [16383, - 8191, 12287, 16383, 20479, 24575, 6, 6]"
    by (simp add: output_sample_def float_to_int_def c_trunc_def MAX_SHORT_def MIN_SHORT_def
        exact_def Let_def)
  have l: "channel_loop test_decoder exact 44100 4
     (chan_d, 0, [0, 0, 0, 0, 0, 0, 0, 0], [7, 7, 7, 7, 7, 7, 7, 7], [], []) =
     Some (chan_d\<lparr>playing := Some [], pos := 4\<rparr>, 4,
         [1 / 2, - (1 / 4), 3 / 8, 1 / 2, 5 / 8, 3 / 4, 7 / 32768, 7 / 32768],
         [4096, 8192, 12288, 16384, 20480, 24576, 7, 7], [], [])"
    by (simp add: channel_iter_sevens_first channel_iter_sevens_second c)
  have mc: "mix_channels test_decoder exact 44100 4 [chan_d]
      ([0, 0, 0, 0, 0, 0, 0, 0], [7, 7, 7, 7, 7, 7, 7, 7], [], []) =
     Some ([chan_d\<lparr>playing := Some [], pos := 4\<rparr>],
         [1 / 2, - (1 / 4), 3 / 8, 1 / 2, 5 / 8, 3 / 4, 7 / 32768, 7 / 32768],
         [4096, 8192, 12288, 16384, 20480, 24576, 7, 7], [], [])"
    by (simp add: c l del: channel_loop.simps)
  have len: "16 div 4 = (4 :: nat)" "(4 :: nat) * 2 = 8" by simp_all
  have e: "state_d\<lparr>channels := cs, dying := [], events := []\<rparr> = state_d\<lparr>channels := cs\<rparr>"
    for cs by (simp add: state_d_def initial_state_def)
  show ?thesis
    unfolding callback_def Let_def len r s c mc option.case prod.case o e ..
qed

text \<open>
  C3 says that for every frame the inner loop accumulates, the value added to each
  accumulator entry is the decoder's signed 16-bit sample divided by 32768, with no gain
  applied. No gain is applied, and the value added is a 16-bit sample divided by 32768,
  but the sample is read at the index \<open>mixed * 2\<close> of the stream buffer while the decoder
  wrote from index 0, so it is the decoder's sample only when \<open>mixed\<close> was 0 at the read.
  After a play of a stream that gives one frame and then three, in a callback of four
  frames whose stream buffer holds 7 at entry, the second read returns the samples 4096,
  8192, 12288, 16384, 20480, 24576 and the loop adds 12288, 16384, 20480, 24576, 7, 7,
  each divided by 32768: the decoder's frame (4096, 8192) is never added, and the value
  7 / 32768 is added twice, from a sample the decoder never produced.
\<close>

theorem mix_adds_stale_sample_evaluation:
  "RPS_play test_decoder exact True 0 [[16384, - 8192], [4096, 8192, 12288, 16384, 20480, 24576]]
     ''wav'' ''d'' 0 0 0 0 0 1 (initial_state 44100) = Some state_d
   \<and> media_read_audio test_decoder [[4096, 8192, 12288, 16384, 20480, 24576]] ((4 - 1) * 2 * 2) =
       ([4096, 8192, 12288, 16384, 20480, 24576], [])
   \<and> channel_iter test_decoder exact 44100 4
     (chan_d\<lparr>playing := Some [[4096, 8192, 12288, 16384, 20480, 24576]], pos := 1\<rparr>, 1,
      [1 / 2, - (1 / 4), 0, 0, 0, 0, 0, 0], [16384, - 8192, 7, 7, 7, 7, 7, 7], [], []) =
     Some (chan_d\<lparr>playing := Some [], pos := 4\<rparr>, 4,
         [1 / 2, - (1 / 4), 3 / 8, 1 / 2, 5 / 8, 3 / 4, 7 / 32768, 7 / 32768],
         [4096, 8192, 12288, 16384, 20480, 24576, 7, 7], [], [])
   \<and> real_of_int (sint (4096 :: c_short)) / 32768 = 1 / 8
   \<and> (7 :: c_short) \<notin> set [16384, - 8192, 4096, 8192, 12288, 16384, 20480, 24576]
   \<and> callback test_decoder exact sevens 16 state_d =
       Some (state_d\<lparr>channels := [chan_d\<lparr>playing := Some [], pos := 4\<rparr>]\<rparr>,
             [16383, - 8191, 12287, 16383, 20479, 24575, 6, 6])"
  using play_state_d channel_iter_sevens_second callback_sevens
  by (simp add: test_decoder_def)


subsection \<open>C2: the seed of the fade in \<open>RPS_fadeout\<close>\<close>

text \<open>
  C2 says that \<open>RPS_fadeout\<close> with a non-zero \<open>ms\<close> seeds the fade from its current value,
  the value \<open>get_interpolate\<close> reports at the moment of the call. The code writes
  \<open>fade.done\<close> and \<open>fade.duration\<close> first and calls \<open>get_interpolate\<close> on the result, so
  the seed is computed from the new ramp. After a play with no fade-in the fade reports
  1; a fade-out over 1000 ms at 44100 Hz then starts from 0, with \<open>stop_samples\<close> and the
  duration 44100 as the claim says. \<open>RPS_set_pan\<close>, which reads the value before it
  writes, starts its second ramp from the value 1/2 the first one had reached.
\<close>

theorem fadeout_seed_evaluation:
  "RPS_play test_decoder exact True 0 [[16384, - 8192], [4096, 8192, 12288, 16384, 20480, 24576]]
     ''wav'' ''d'' 0 0 0 0 0 1 (initial_state 44100) = Some state_d
   \<and> fade (channels state_d ! 0) = \<lparr>i_done = 0, i_duration = 0, i_start = 0, i_end = 1\<rparr>
   \<and> fst (get_interpolate exact (fade (channels state_d ! 0))) = 1
   \<and> fade (channels (RPS_fadeout exact True 0 1000 state_d) ! 0) =
       \<lparr>i_done = 0, i_duration = 44100, i_start = 0, i_end = 0\<rparr>
   \<and> stop_samples (channels (RPS_fadeout exact True 0 1000 state_d) ! 0) = 44100
   \<and> Option.bind (RPS_set_pan exact True 0 (1 / 2) 0 state_d)
        (\<lambda>st. map_option (\<lambda>st. pan (channels st ! 0)) (RPS_set_pan exact True 0 1 1 st)) =
       Some \<lparr>i_done = 0, i_duration = 44100, i_start = 1 / 2, i_end = 1\<rparr>"
proof -
  have c: "channels state_d = [chan_d]" "freq state_d = 44100"
    by (simp_all add: state_d_def initial_state_def)
  have f: "fade chan_d = \<lparr>i_done = 0, i_duration = 0, i_start = 0, i_end = 1\<rparr>"
    "queued chan_d = None" "pan chan_d = \<lparr>i_done = 0, i_duration = 0, i_start = 0, i_end = 0\<rparr>"
    by (simp_all add: chan_d_def new_channel_def init_interpolate_def)
  have g: "fst (get_interpolate exact (fade (channels state_d ! 0))) = 1"
    by (simp add: c f get_interpolate_def)
  have ms: "ms_to_samples 44100 1000 = 44100"
    by (simp add: ms_to_samples_def signed_divide_int_def)
  have fo: "channels (RPS_fadeout exact True 0 1000 state_d) =
      [chan_d\<lparr>fade := \<lparr>i_done = 0, i_duration = 44100, i_start = 0, i_end = 0\<rparr>,
         stop_samples := 44100, queued_tight := 0, playing_tight := 0\<rparr>]"
    unfolding RPS_fadeout_def check_channel_present [OF c(1)] prod.case
    by (simp add: c f ms set_chan_def get_interpolate_def lerp_def uint_to_float_def exact_def
        Let_def)
  have p1: "RPS_set_pan exact True 0 (1 / 2) 0 state_d =
      Some (state_d\<lparr>channels :=
        [chan_d\<lparr>pan := \<lparr>i_done = 0, i_duration = 0, i_start = 0, i_end = 1 / 2\<rparr>\<rparr>]\<rparr>)"
    unfolding RPS_set_pan_def check_channel_present [OF c(1)] prod.case
    by (simp add: c f set_chan_def get_interpolate_def float_to_int_def c_trunc_def exact_def
        ms_to_samples_def signed_divide_int_def Let_def state_d_def initial_state_def SUCCESS_def)
  have c2: "channels (state_d\<lparr>channels := cs\<rparr>) = cs" "freq (state_d\<lparr>channels := cs\<rparr>) = 44100"
    for cs by (simp_all add: state_d_def initial_state_def)
  have p2: "map_option (\<lambda>st. pan (channels st ! 0))
      (RPS_set_pan exact True 0 1 1 (state_d\<lparr>channels :=
        [chan_d\<lparr>pan := \<lparr>i_done = 0, i_duration = 0, i_start = 0, i_end = 1 / 2\<rparr>\<rparr>]\<rparr>)) =
      Some \<lparr>i_done = 0, i_duration = 44100, i_start = 1 / 2, i_end = 1\<rparr>"
    unfolding RPS_set_pan_def check_channel_present [OF c2(1)] prod.case
    by (simp add: c2 set_chan_def get_interpolate_def float_to_int_def c_trunc_def exact_def
        ms Let_def)
  show ?thesis
    by (simp add: play_state_d g fo p1 p2) (simp add: c f)
qed

subsection \<open>C8: the error code after \<open>RPS_set_video\<close>\<close>

text \<open>
  C8 says that every control function, \<open>RPS_set_video\<close> included, sets \<open>RPS_error\<close> when it
  completes, to \<open>SUCCESS\<close> when it succeeds. \<open>RPS_set_video\<close> does not: after a play that
  failed with \<open>SOUND_ERROR\<close>, a successful \<open>RPS_set_video\<close> sets the video flag and leaves
  \<open>SOUND_ERROR\<close> in place, where \<open>RPS_set_endevent\<close> on the same state sets \<open>SUCCESS\<close>.
\<close>

theorem set_video_keeps_error_evaluation:
  "RPS_play test_decoder exact True 0 [] ''bad'' ''x'' 0 0 0 0 0 1 (initial_state 44100) =
     Some state_f
   \<and> RPS_error state_f = SOUND_ERROR \<and> SOUND_ERROR \<noteq> SUCCESS
   \<and> RPS_set_video True 0 1 state_f = state_f\<lparr>channels := [new_channel\<lparr>video := 1\<rparr>]\<rparr>
   \<and> RPS_error (RPS_set_video True 0 1 state_f) = SOUND_ERROR
   \<and> RPS_error (RPS_set_endevent True 0 1 state_f) = SUCCESS"
proof -
  have c: "channels state_f = [new_channel]" by (simp add: state_f_def initial_state_def)
  have v: "RPS_set_video True 0 1 state_f = state_f\<lparr>channels := [new_channel\<lparr>video := 1\<rparr>]\<rparr>"
    unfolding RPS_set_video_def check_channel_present [OF c] prod.case
    by (simp add: c set_chan_def)
  have e: "RPS_error (RPS_set_endevent True 0 1 state_f) = SUCCESS"
    unfolding RPS_set_endevent_def check_channel_present [OF c] prod.case
    by (simp add: set_chan_def)
  show ?thesis
    by (simp add: play_state_f v e) (simp add: state_f_def SOUND_ERROR_def SUCCESS_def)
qed

subsection \<open>C9: what \<open>RPS_dequeue\<close> changes when the queued stream stays\<close>

text \<open>
  C9 says that \<open>RPS_dequeue\<close>, when a stream is queued, the playing stream is tight and
  \<open>even_tight\<close> is false, clears \<open>queued_tight\<close> and nothing else, \<open>queued_start_ms\<close> being
  named among the fields left unchanged. The code also sets \<open>queued_start_ms\<close> to 0: a
  stream queued to start at 5000 ms stays queued, with its start time now 0.
\<close>

theorem dequeue_zeroes_queued_start_ms_evaluation:
  "Option.bind
     (RPS_play test_decoder exact True 0 [[1, 1]] ''wav'' ''a'' 0 1 0 0 0 1 (initial_state 44100))
     (RPS_queue test_decoder exact True 0 [[2, 2]] ''wav'' ''b'' 0 1 5 0 1) = Some state_q
   \<and> queued (channels state_q ! 0) = Some [[2, 2]]
   \<and> playing_tight (channels state_q ! 0) = 1
   \<and> queued_start_ms (channels state_q ! 0) = 5000
   \<and> RPS_dequeue True 0 0 state_q =
       state_q\<lparr>channels := [chan_q\<lparr>queued_tight := 0, queued_start_ms := 0\<rparr>]\<rparr>
   \<and> queued (channels (RPS_dequeue True 0 0 state_q) ! 0) = Some [[2, 2]]
   \<and> queued_start_ms (channels (RPS_dequeue True 0 0 state_q) ! 0) = 0"
proof -
  have c: "channels state_q = [chan_q]" by (simp add: state_q_def initial_state_def)
  have q: "queued chan_q = Some [[2, 2]]" "playing_tight chan_q = 1" "queued_start_ms chan_q = 5000"
    by (simp_all add: chan_q_def)
  have d: "RPS_dequeue True 0 0 state_q =
       state_q\<lparr>channels := [chan_q\<lparr>queued_tight := 0, queued_start_ms := 0\<rparr>]\<rparr>"
    unfolding RPS_dequeue_def check_channel_present [OF c] prod.case
    by (simp add: c q set_chan_def Let_def state_q_def initial_state_def SUCCESS_def)
  show ?thesis
    by (simp add: play_queue_state_q d c q)
qed

subsection \<open>C7: a queued stream only with a playing stream\<close>

lemma queue_ok_new [simp]: "queue_ok new_channel"
  by (simp add: queue_ok_def new_channel_def)

lemma check_channel_ok:
  assumes "check_channel ok ch st = (rv, st1)" and "list_all queue_ok (channels st)"
  shows "list_all queue_ok (channels st1)"
    and "rv = 0 \<Longrightarrow> unat ch < length (channels st1)"
  using assms
  by (auto simp: check_channel_def num_channels_def list_all_iff split: if_splits)

lemma set_chan_ok:
  "list_all queue_ok (channels st) \<Longrightarrow> queue_ok c \<Longrightarrow>
   list_all queue_ok (channels (set_chan i c st))"
  by (auto simp: set_chan_def list_all_iff dest!: subsetD [OF set_update_subset_insert])

lemma free_stream_channels [simp]: "channels (free_stream p st) = channels st"
  by (simp add: free_stream_def)

lemma set_chan_fields [simp]:
  "channels (set_chan i c st) = (channels st)[i := c]"
  by (simp add: set_chan_def)


lemma list_all_update:
  "list_all P xs \<Longrightarrow> P c \<Longrightarrow> list_all P (xs[i := c])"
  by (auto simp: list_all_iff dest!: subsetD [OF set_update_subset_insert])

lemma list_all_nth: "list_all P xs \<Longrightarrow> i < length xs \<Longrightarrow> P (xs ! i)"
  by (simp add: list_all_length)

lemma start_stream_ok [simp]: "queue_ok (start_stream fr c b) = queue_ok c"
  by (simp add: queue_ok_def)

lemma RPS_play_ok:
  assumes "list_all queue_ok (channels st)"
    and "RPS_play D rd ok ch rw ext name fadein tight pau start en rv st = Some st'"
  shows "list_all queue_ok (channels st')"
proof -
  obtain r st1 where cc: "check_channel ok ch st = (r, st1)" by force
  note c1 = check_channel_ok [OF cc assms(1)]
  show ?thesis
  proof (cases "r = 0")
    case False
    with assms(2) cc c1 show ?thesis by (simp add: RPS_play_def)
  next
    case True
    with assms(2) cc c1(1) show ?thesis
      by (auto simp: RPS_play_def Let_def queue_ok_def intro!: list_all_update
          split: option.splits if_splits)
  qed
qed

lemma RPS_stop_ok:
  assumes "list_all queue_ok (channels st)"
  shows "list_all queue_ok (channels (RPS_stop ok ch st))"
proof -
  obtain r st1 where cc: "check_channel ok ch st = (r, st1)" by force
  note c1 = check_channel_ok [OF cc assms(1)]
  show ?thesis
  proof (cases "r = 0")
    case False
    with cc c1 show ?thesis by (simp add: RPS_stop_def)
  next
    case True
    with cc c1(1) show ?thesis
      by (auto simp: RPS_stop_def Let_def queue_ok_def intro!: list_all_update
          split: option.splits if_splits)
  qed
qed

lemma RPS_dequeue_ok:
  assumes "list_all queue_ok (channels st)"
  shows "list_all queue_ok (channels (RPS_dequeue ok ch even_tight st))"
proof -
  obtain r st1 where cc: "check_channel ok ch st = (r, st1)" by force
  note c1 = check_channel_ok [OF cc assms(1)]
  show ?thesis
  proof (cases "r = 0")
    case False
    with cc c1 show ?thesis by (auto simp: RPS_dequeue_def)
  next
    case True
    with c1 have qc: "queue_ok (channels st1 ! unat ch)" by (simp add: list_all_nth)
    from True cc c1(1) qc show ?thesis
      by (auto simp: RPS_dequeue_def Let_def queue_ok_def intro!: list_all_update
          split: option.splits if_splits prod.splits)
  qed
qed

lemma RPS_queue_depth_ok:
  assumes "list_all queue_ok (channels st)"
  shows "list_all queue_ok (channels (snd (RPS_queue_depth ok ch st)))"
proof -
  obtain r st1 where cc: "check_channel ok ch st = (r, st1)" by force
  note c1 = check_channel_ok [OF cc assms(1)]
  show ?thesis
  proof (cases "r = 0")
    case False
    with cc c1 show ?thesis by (auto simp: RPS_queue_depth_def)
  next
    case True
    with c1 have qc: "queue_ok (channels st1 ! unat ch)" by (simp add: list_all_nth)
    from True cc c1(1) qc show ?thesis
      by (auto simp: RPS_queue_depth_def Let_def queue_ok_def intro!: list_all_update
          split: option.splits if_splits prod.splits)
  qed
qed

lemma RPS_playing_name_ok:
  assumes "list_all queue_ok (channels st)"
  shows "list_all queue_ok (channels (snd (RPS_playing_name ok ch st)))"
proof -
  obtain r st1 where cc: "check_channel ok ch st = (r, st1)" by force
  note c1 = check_channel_ok [OF cc assms(1)]
  show ?thesis
  proof (cases "r = 0")
    case False
    with cc c1 show ?thesis by (auto simp: RPS_playing_name_def)
  next
    case True
    with c1 have qc: "queue_ok (channels st1 ! unat ch)" by (simp add: list_all_nth)
    from True cc c1(1) qc show ?thesis
      by (auto simp: RPS_playing_name_def Let_def queue_ok_def intro!: list_all_update
          split: option.splits if_splits prod.splits)
  qed
qed

lemma RPS_fadeout_ok:
  assumes "list_all queue_ok (channels st)"
  shows "list_all queue_ok (channels (RPS_fadeout rnd ok ch ms st))"
proof -
  obtain r st1 where cc: "check_channel ok ch st = (r, st1)" by force
  note c1 = check_channel_ok [OF cc assms(1)]
  show ?thesis
  proof (cases "r = 0")
    case False
    with cc c1 show ?thesis by (auto simp: RPS_fadeout_def)
  next
    case True
    with c1 have qc: "queue_ok (channels st1 ! unat ch)" by (simp add: list_all_nth)
    from True cc c1(1) qc show ?thesis
      by (auto simp: RPS_fadeout_def Let_def queue_ok_def intro!: list_all_update
          split: option.splits if_splits prod.splits)
  qed
qed

lemma RPS_pause_ok:
  assumes "list_all queue_ok (channels st)"
  shows "list_all queue_ok (channels (RPS_pause D ok ch pause st))"
proof -
  obtain r st1 where cc: "check_channel ok ch st = (r, st1)" by force
  note c1 = check_channel_ok [OF cc assms(1)]
  show ?thesis
  proof (cases "r = 0")
    case False
    with cc c1 show ?thesis by (auto simp: RPS_pause_def)
  next
    case True
    with c1 have qc: "queue_ok (channels st1 ! unat ch)" by (simp add: list_all_nth)
    from True cc c1(1) qc show ?thesis
      by (auto simp: RPS_pause_def Let_def queue_ok_def intro!: list_all_update
          split: option.splits if_splits prod.splits)
  qed
qed

lemma RPS_get_duration_ok:
  assumes "list_all queue_ok (channels st)"
  shows "list_all queue_ok (channels (snd (RPS_get_duration D ok ch st)))"
proof -
  obtain r st1 where cc: "check_channel ok ch st = (r, st1)" by force
  note c1 = check_channel_ok [OF cc assms(1)]
  show ?thesis
  proof (cases "r = 0")
    case False
    with cc c1 show ?thesis by (auto simp: RPS_get_duration_def)
  next
    case True
    with c1 have qc: "queue_ok (channels st1 ! unat ch)" by (simp add: list_all_nth)
    from True cc c1(1) qc show ?thesis
      by (auto simp: RPS_get_duration_def Let_def queue_ok_def intro!: list_all_update
          split: option.splits if_splits prod.splits)
  qed
qed

lemma RPS_set_endevent_ok:
  assumes "list_all queue_ok (channels st)"
  shows "list_all queue_ok (channels (RPS_set_endevent ok ch evt st))"
proof -
  obtain r st1 where cc: "check_channel ok ch st = (r, st1)" by force
  note c1 = check_channel_ok [OF cc assms(1)]
  show ?thesis
  proof (cases "r = 0")
    case False
    with cc c1 show ?thesis by (auto simp: RPS_set_endevent_def)
  next
    case True
    with c1 have qc: "queue_ok (channels st1 ! unat ch)" by (simp add: list_all_nth)
    from True cc c1(1) qc show ?thesis
      by (auto simp: RPS_set_endevent_def Let_def queue_ok_def intro!: list_all_update
          split: option.splits if_splits prod.splits)
  qed
qed

lemma RPS_set_volume_ok:
  assumes "list_all queue_ok (channels st)"
  shows "list_all queue_ok (channels (RPS_set_volume ok ch volume st))"
proof -
  obtain r st1 where cc: "check_channel ok ch st = (r, st1)" by force
  note c1 = check_channel_ok [OF cc assms(1)]
  show ?thesis
  proof (cases "r = 0")
    case False
    with cc c1 show ?thesis by (auto simp: RPS_set_volume_def)
  next
    case True
    with c1 have qc: "queue_ok (channels st1 ! unat ch)" by (simp add: list_all_nth)
    from True cc c1(1) qc show ?thesis
      by (auto simp: RPS_set_volume_def Let_def queue_ok_def intro!: list_all_update
          split: option.splits if_splits prod.splits)
  qed
qed

lemma RPS_get_volume_ok:
  assumes "list_all queue_ok (channels st)"
  shows "list_all queue_ok (channels (snd (RPS_get_volume ok ch st)))"
proof -
  obtain r st1 where cc: "check_channel ok ch st = (r, st1)" by force
  note c1 = check_channel_ok [OF cc assms(1)]
  show ?thesis
  proof (cases "r = 0")
    case False
    with cc c1 show ?thesis by (auto simp: RPS_get_volume_def)
  next
    case True
    with c1 have qc: "queue_ok (channels st1 ! unat ch)" by (simp add: list_all_nth)
    from True cc c1(1) qc show ?thesis
      by (auto simp: RPS_get_volume_def Let_def queue_ok_def intro!: list_all_update
          split: option.splits if_splits prod.splits)
  qed
qed

lemma RPS_read_video_ok:
  assumes "list_all queue_ok (channels st)"
  shows "list_all queue_ok (channels (snd (RPS_read_video D ok ch st)))"
proof -
  obtain r st1 where cc: "check_channel ok ch st = (r, st1)" by force
  note c1 = check_channel_ok [OF cc assms(1)]
  show ?thesis
  proof (cases "r = 0")
    case False
    with cc c1 show ?thesis by (auto simp: RPS_read_video_def)
  next
    case True
    with c1 have qc: "queue_ok (channels st1 ! unat ch)" by (simp add: list_all_nth)
    from True cc c1(1) qc show ?thesis
      by (auto simp: RPS_read_video_def Let_def queue_ok_def intro!: list_all_update
          split: option.splits if_splits prod.splits)
  qed
qed

lemma RPS_video_ready_ok:
  assumes "list_all queue_ok (channels st)"
  shows "list_all queue_ok (channels (snd (RPS_video_ready D ok ch st)))"
proof -
  obtain r st1 where cc: "check_channel ok ch st = (r, st1)" by force
  note c1 = check_channel_ok [OF cc assms(1)]
  show ?thesis
  proof (cases "r = 0")
    case False
    with cc c1 show ?thesis by (auto simp: RPS_video_ready_def)
  next
    case True
    with c1 have qc: "queue_ok (channels st1 ! unat ch)" by (simp add: list_all_nth)
    from True cc c1(1) qc show ?thesis
      by (auto simp: RPS_video_ready_def Let_def queue_ok_def intro!: list_all_update
          split: option.splits if_splits prod.splits)
  qed
qed

lemma RPS_set_video_ok:
  assumes "list_all queue_ok (channels st)"
  shows "list_all queue_ok (channels (RPS_set_video ok ch vid st))"
proof -
  obtain r st1 where cc: "check_channel ok ch st = (r, st1)" by force
  note c1 = check_channel_ok [OF cc assms(1)]
  show ?thesis
  proof (cases "r = 0")
    case False
    with cc c1 show ?thesis by (auto simp: RPS_set_video_def)
  next
    case True
    with c1 have qc: "queue_ok (channels st1 ! unat ch)" by (simp add: list_all_nth)
    from True cc c1(1) qc show ?thesis
      by (auto simp: RPS_set_video_def Let_def queue_ok_def intro!: list_all_update
          split: option.splits if_splits prod.splits)
  qed
qed

lemma RPS_set_pan_ok:
  assumes "list_all queue_ok (channels st)"
    and "RPS_set_pan rnd ok ch pn delay st = Some st'"
  shows "list_all queue_ok (channels st')"
proof -
  obtain r st1 where cc: "check_channel ok ch st = (r, st1)" by force
  note c1 = check_channel_ok [OF cc assms(1)]
  show ?thesis
  proof (cases "r = 0")
    case False
    with assms(2) cc c1 show ?thesis by (auto simp: RPS_set_pan_def)
  next
    case True
    with c1 have qc: "queue_ok (channels st1 ! unat ch)" by (simp add: list_all_nth)
    from True assms(2) cc c1(1) qc show ?thesis
      by (auto simp: RPS_set_pan_def Let_def queue_ok_def intro!: list_all_update
          split: option.splits if_splits prod.splits)
  qed
qed

lemma RPS_set_secondary_volume_ok:
  assumes "list_all queue_ok (channels st)"
    and "RPS_set_secondary_volume rnd ok ch vol2 delay st = Some st'"
  shows "list_all queue_ok (channels st')"
proof -
  obtain r st1 where cc: "check_channel ok ch st = (r, st1)" by force
  note c1 = check_channel_ok [OF cc assms(1)]
  show ?thesis
  proof (cases "r = 0")
    case False
    with assms(2) cc c1 show ?thesis by (auto simp: RPS_set_secondary_volume_def)
  next
    case True
    with c1 have qc: "queue_ok (channels st1 ! unat ch)" by (simp add: list_all_nth)
    from True assms(2) cc c1(1) qc show ?thesis
      by (auto simp: RPS_set_secondary_volume_def Let_def queue_ok_def intro!: list_all_update
          split: option.splits if_splits prod.splits)
  qed
qed

lemma RPS_get_pos_ok:
  assumes "list_all queue_ok (channels st)"
    and "map_option snd (RPS_get_pos ok ch st) = Some st'"
  shows "list_all queue_ok (channels st')"
proof -
  obtain r st1 where cc: "check_channel ok ch st = (r, st1)" by force
  note c1 = check_channel_ok [OF cc assms(1)]
  show ?thesis
  proof (cases "r = 0")
    case False
    with assms(2) cc c1 show ?thesis by (auto simp: RPS_get_pos_def)
  next
    case True
    with c1 have qc: "queue_ok (channels st1 ! unat ch)" by (simp add: list_all_nth)
    from True assms(2) cc c1(1) qc show ?thesis
      by (auto simp: RPS_get_pos_def Let_def queue_ok_def intro!: list_all_update
          split: option.splits if_splits prod.splits)
  qed
qed


lemma RPS_queue_ok:
  assumes "list_all queue_ok (channels st)"
    and "RPS_queue D rd ok ch rw ext name fadein tight start en rv st = Some st'"
  shows "list_all queue_ok (channels st')"
proof -
  obtain r st1 where cc: "check_channel ok ch st = (r, st1)" by force
  note c1 = check_channel_ok [OF cc assms(1)]
  show ?thesis
  proof (cases "r = 0")
    case False
    with assms(2) cc c1 show ?thesis by (simp add: RPS_queue_def)
  next
    case True
    show ?thesis
    proof (cases "playing (channels st1 ! unat ch)")
      case None
      with True assms(2) cc
      have "RPS_play D rd ok ch rw ext name fadein tight 0 start en rv st1 = Some st'"
        by (simp add: RPS_queue_def Let_def)
      with c1(1) show ?thesis by (rule RPS_play_ok)
    next
      case (Some p)
      with True assms(2) cc c1(1) show ?thesis
        by (auto simp: RPS_queue_def Let_def queue_ok_def intro!: list_all_update
            split: option.splits if_splits)
    qed
  qed
qed

lemma RPS_unpause_all_at_start_ok:
  assumes "list_all queue_ok (channels st)"
  shows "list_all queue_ok (channels (RPS_unpause_all_at_start D st))"
  using assms
  by (auto simp: RPS_unpause_all_at_start_def Let_def list_all_iff queue_ok_def
      split: option.splits)

lemma RPS_init_ok:
  "list_all queue_ok (channels st) \<Longrightarrow>
   list_all queue_ok (channels (RPS_init init_ok open_ok fr st))"
  by (simp add: RPS_init_def Let_def)

lemma RPS_quit_ok:
  "list_all queue_ok (channels st) \<Longrightarrow> list_all queue_ok (channels (RPS_quit st))"
  by (simp add: RPS_quit_def Let_def)

lemma RPS_periodic_ok:
  "list_all queue_ok (channels st) \<Longrightarrow> list_all queue_ok (channels (RPS_periodic st))"
  by (simp add: RPS_periodic_def)

lemma control_ok:
  assumes "list_all queue_ok (channels st)" and "control D rnd rd call st = Some st'"
  shows "list_all queue_ok (channels st')"
proof (cases call)
  case (Play ok ch rw ext name fadein tight pau start en rv)
  with assms show ?thesis by (auto intro: RPS_play_ok)
next
  case (Queue ok ch rw ext name fadein tight start en rv)
  with assms show ?thesis by (auto intro: RPS_queue_ok)
next
  case (Stop ok ch)
  with assms show ?thesis by (auto intro: RPS_stop_ok)
next
  case (Dequeue ok ch even_tight)
  with assms show ?thesis by (auto intro: RPS_dequeue_ok)
next
  case (Queue_depth ok ch)
  with assms show ?thesis by (auto intro: RPS_queue_depth_ok)
next
  case (Playing_name ok ch)
  with assms show ?thesis by (auto intro: RPS_playing_name_ok)
next
  case (Fadeout ok ch ms)
  with assms show ?thesis by (auto intro: RPS_fadeout_ok)
next
  case (Pause ok ch pause)
  with assms show ?thesis by (auto intro: RPS_pause_ok)
next
  case Unpause_all_at_start
  with assms show ?thesis by (auto intro: RPS_unpause_all_at_start_ok)
next
  case (Get_pos ok ch)
  with assms show ?thesis by (auto intro: RPS_get_pos_ok simp del: map_option_eq_Some)
next
  case (Get_duration ok ch)
  with assms show ?thesis by (auto intro: RPS_get_duration_ok)
next
  case (Set_endevent ok ch evt)
  with assms show ?thesis by (auto intro: RPS_set_endevent_ok)
next
  case (Set_volume ok ch volume)
  with assms show ?thesis by (auto intro: RPS_set_volume_ok)
next
  case (Get_volume ok ch)
  with assms show ?thesis by (auto intro: RPS_get_volume_ok)
next
  case (Set_pan ok ch pn delay)
  with assms show ?thesis by (auto intro: RPS_set_pan_ok)
next
  case (Set_secondary_volume ok ch vol2 delay)
  with assms show ?thesis by (auto intro: RPS_set_secondary_volume_ok)
next
  case (Read_video ok ch)
  with assms show ?thesis by (auto intro: RPS_read_video_ok)
next
  case (Video_ready ok ch)
  with assms show ?thesis by (auto intro: RPS_video_ready_ok)
next
  case (Set_video ok ch vid)
  with assms show ?thesis by (auto intro: RPS_set_video_ok)
next
  case (Init init_ok open_ok fr)
  with assms show ?thesis by (auto intro: RPS_init_ok)
next
  case Quit
  with assms show ?thesis by (auto intro: RPS_quit_ok)
next
  case Periodic
  with assms show ?thesis by (auto intro: RPS_periodic_ok)
qed

lemma channel_iter_ok:
  assumes "channel_iter D rnd fr len (c, mixed, mb, sb, dy, ev) = Some s'"
  shows "queue_ok (fst s')"
  using assms
proof (cases rule: channel_iter_SomeE)
  case (promotion p data p')
  then show ?thesis by (simp add: queue_ok_def promote_def)
next
  case (mixing p data p')
  then show ?thesis by (simp add: queue_ok_def mix_frames_chan)
qed

lemma channel_loop_ok:
  "channel_loop D rnd fr len s = Some s' \<Longrightarrow> queue_ok (fst s) \<Longrightarrow> queue_ok (fst s')"
proof (induction D rnd fr len s rule: channel_loop.induct)
  case (1 D rnd fr len c mixed mb sb dy ev)
  show ?case
  proof (cases "mixed < len \<and> playing c \<noteq> None")
    case False
    with "1.prems" show ?thesis by auto
  next
    case True
    with "1.prems" obtain s1 where
      it: "channel_iter D rnd fr len (c, mixed, mb, sb, dy, ev) = Some s1"
      and loop: "channel_loop D rnd fr len s1 = Some s'"
      by (auto split: option.splits)
    from "1.IH" [OF True it loop] channel_iter_ok [OF it] show ?thesis by simp
  qed
qed

lemma mix_channels_ok:
  "mix_channels D rnd fr len cs g = Some (cs', g') \<Longrightarrow> list_all queue_ok cs \<Longrightarrow>
   list_all queue_ok cs'"
proof (induction cs arbitrary: g cs' g')
  case Nil
  then show ?case by simp
next
  case (Cons c cs)
  obtain mb sb dy ev where g: "g = (mb, sb, dy, ev)" by (cases g)
  show ?case
  proof (cases "playing c = None \<or> paused c \<noteq> 0")
    case True
    with Cons.prems g obtain cs1 where
      r: "mix_channels D rnd fr len cs (mb, sb, dy, ev) = Some (cs1, g')" and e: "cs' = c # cs1"
      by (auto split: option.splits)
    from Cons.IH [OF r] Cons.prems(2) e show ?thesis by simp
  next
    case False
    with Cons.prems g obtain c1 mixed mb1 sb1 dy1 ev1 cs1 where
      l: "channel_loop D rnd fr len (c, 0, mb, sb, dy, ev) = Some (c1, mixed, mb1, sb1, dy1, ev1)"
      and r: "mix_channels D rnd fr len cs (mb1, sb1, dy1, ev1) = Some (cs1, g')"
      and e: "cs' = c1 # cs1"
      by (auto split: option.splits simp del: channel_loop.simps)
    from channel_loop_ok [OF l] Cons.prems(2) have "queue_ok c1" by simp
    with Cons.IH [OF r] Cons.prems(2) e show ?thesis by simp
  qed
qed

lemma callback_ok:
  assumes "list_all queue_ok (channels st)" and "callback D rnd junk nbytes st = Some (st', out)"
  shows "list_all queue_ok (channels st')"
proof -
  from assms(2) obtain cs g where
    m: "mix_channels D rnd (freq st) (nbytes div 4) (channels st)
          (replicate (nbytes div 4 * 2) 0, map junk [0 ..< nbytes div 4 * 2], dying st, events st) =
        Some (cs, g)"
    and c: "channels st' = cs"
    by (auto simp: callback_def Let_def split: option.splits)
  from mix_channels_ok [OF m assms(1)] c show ?thesis by simp
qed

lemma check_channel_again:
  assumes "check_channel ok ch st = (0, st1)"
  shows "check_channel ok ch st1 = (0, st1)" and "unat ch < length (channels st1)"
  using assms
  by (auto simp: check_channel_def num_channels_def split: if_splits)

lemma RPS_queue_on_empty:
  assumes "check_channel ok ch st = (0, st1)"
    and "playing (channels st1 ! unat ch) = None"
    and "RPS_queue D rd ok ch rw ext name fadein tight start en rv st = Some st2"
  shows "playing (channels st2 ! unat ch) =
           load_stream D rw ext start en (video (channels st1 ! unat ch))
       \<and> queued (channels st2 ! unat ch) = None"
proof -
  note again = check_channel_again [OF assms(1)]
  from assms have p: "RPS_play D rd ok ch rw ext name fadein tight 0 start en rv st1 = Some st2"
    by (simp add: RPS_queue_def Let_def)
  show ?thesis
  proof (cases "load_stream D rw ext start en (video (channels st1 ! unat ch))")
    case None
    with p again assms(2) show ?thesis
      by (auto simp: RPS_play_def Let_def split: option.splits if_splits)
  next
    case (Some s)
    with p again assms(2) show ?thesis
      by (auto simp: RPS_play_def Let_def split: option.splits if_splits)
  qed
qed

text \<open>
  So a control call that the callback does not interrupt keeps the invariant
  (\<open>control_ok\<close>), a callback keeps it (\<open>callback_ok\<close>), and \<open>RPS_queue\<close> on a channel
  whose playing slot is empty puts the stream it loads into the playing slot
  (\<open>RPS_queue_on_empty\<close>). The audio thread can interrupt \<open>RPS_queue\<close>, though.
\<close>

lemma RPS_queue_split:
  "RPS_queue D rd ok channel rw ext name fadein tight start en relative_volume st0 =
     (case check_channel ok channel st0 of (rv, st) \<Rightarrow>
        if rv \<noteq> 0 then Some st
        else if playing (channels st ! unat channel) = None then
          RPS_play D rd ok channel rw ext name fadein tight 0 start en relative_volume st
        else RPS_queue_locked D rd channel rw ext name fadein tight start en relative_volume st)"
  by (simp add: RPS_queue_def RPS_queue_locked_def Let_def split: prod.splits)

lemma callback_state_e:
  "callback test_decoder exact silence 4 state_e =
     Some (state_e\<lparr>channels := [chan_e\<lparr>playing := None, playing_name := None,
             playing_fadein := 0, playing_relative_volume := 0, pos := 0,
             queued_relative_volume := 1,
             fade := \<lparr>i_done = 0, i_duration = 0, i_start = 0, i_end = 1\<rparr>\<rparr>],
            dying := [[]]\<rparr>, [0, 0])"
proof -
  have r: "replicate 2 (0 :: real) = [0, 0]" by (simp add: numeral_2_eq_2)
  show ?thesis
    by (simp add: callback_def state_e_def chan_e_def state_b_def initial_state_def chan_b_def
      new_channel_def channel_iter_def test_decoder_def Let_def post_event_def start_stream_def
      ms_to_samples_def signed_divide_int_def MIN_SHORT_def MAX_SHORT_def
      exact_def silence_def output_sample_def float_to_int_def c_trunc_def r)
qed


text \<open>
  C7 says that after any control operation returns, a channel whose queued slot is
  non-null has a non-null playing slot. \<open>RPS_queue\<close> breaks this when the callback runs
  between its test of \<^verbatim>\<open>c->playing\<close> and \<^verbatim>\<open>LOCK_AUDIO()\<close>. After a play of a one-frame
  stream and a callback that mixes the frame, the playing slot still holds the decoder.
  \<open>RPS_queue\<close> finds it non-null; the callback then reads the end of the stream and
  empties the playing slot; the locked part of \<open>RPS_queue\<close> fills the queued slot and
  returns with \<open>SUCCESS\<close>: the queued slot is non-null and the playing slot is null. The
  same call with no callback inside it leaves both slots non-null.
\<close>

theorem queue_interrupted_evaluation:
  "RPS_play test_decoder exact True 0 [[16384, - 8192]] ''wav'' ''b'' 1000 0 0 0 0 1
     (initial_state 44100) = Some state_b
   \<and> callback test_decoder exact silence 4 state_b = Some (state_e, [16383, - 8191])
   \<and> playing (channels state_e ! 0) = Some [] \<and> queued (channels state_e ! 0) = None
   \<and> map_option (\<lambda>st. (playing (channels st ! 0), queued (channels st ! 0), RPS_error st))
        (RPS_queue_interrupted test_decoder exact exact silence 4 True 0 [[2, 2]] ''wav'' ''q''
           0 0 0 0 1 state_e) =
       Some (None, Some [[2, 2]], SUCCESS)
   \<and> map_option (\<lambda>st. (playing (channels st ! 0), queued (channels st ! 0), RPS_error st))
        (RPS_queue test_decoder exact True 0 [[2, 2]] ''wav'' ''q'' 0 0 0 0 1 state_e) =
       Some (Some [], Some [[2, 2]], SUCCESS)"
proof -
  have cb: "callback test_decoder exact silence 4 state_b = Some (state_e, [16383, - 8191])"
    by (simp add: callback_state_b state_e_def chan_e_def)
  have c: "channels state_e = [chan_e]" by (simp add: state_e_def)
  have p: "playing chan_e = Some []" "queued chan_e = None" "video chan_e = 0"
    by (simp_all add: chan_e_def chan_b_def new_channel_def)
  have f: "float_to_int (exact 0) = Some 0"
    by (simp add: float_to_int_def c_trunc_def exact_def)
  have l: "load_stream test_decoder [[2, 2]] ''wav'' 0 0 0 = Some [[2, 2]]"
    by (simp add: load_stream_def test_decoder_def)
  let ?c1 = "chan_e\<lparr>playing := None, playing_name := None,
             playing_fadein := 0, playing_relative_volume := 0, pos := 0,
             queued_relative_volume := 1,
             fade := \<lparr>i_done = 0, i_duration = 0, i_start = 0, i_end = 1\<rparr>\<rparr>"
  have tail: "map_option (\<lambda>st. (playing (channels st ! 0), queued (channels st ! 0), RPS_error st))
      (RPS_queue_locked test_decoder exact 0 [[2, 2]] ''wav'' ''q'' 0 0 0 0 1
         (state_e\<lparr>channels := [?c1], dying := [[]]\<rparr>)) = Some (None, Some [[2, 2]], SUCCESS)"
    by (simp add: RPS_queue_locked_def Let_def p f l)
  have i: "map_option (\<lambda>st. (playing (channels st ! 0), queued (channels st ! 0), RPS_error st))
        (RPS_queue_interrupted test_decoder exact exact silence 4 True 0 [[2, 2]] ''wav'' ''q''
           0 0 0 0 1 state_e) =
       Some (None, Some [[2, 2]], SUCCESS)"
    unfolding RPS_queue_interrupted_def check_channel_present [OF c] prod.case Let_def
    by (simp add: c p callback_state_e tail)
  have s: "map_option (\<lambda>st. (playing (channels st ! 0), queued (channels st ! 0), RPS_error st))
        (RPS_queue test_decoder exact True 0 [[2, 2]] ''wav'' ''q'' 0 0 0 0 1 state_e) =
       Some (Some [], Some [[2, 2]], SUCCESS)"
    unfolding RPS_queue_def check_channel_present [OF c] prod.case Let_def
    by (simp add: c p f l)
  from play_state_b cb c p i s show ?thesis by simp
qed



subsection \<open>What \<open>RPS_fadeout\<close> does on a valid channel\<close>

text \<open>
  The rest of what C2 says holds for every state: with \<open>ms = 0\<close> only \<open>stop_samples\<close> of
  the channel (and the error code) changes; otherwise the fade gets \<open>done = 0\<close>, the
  duration \<open>ms_to_samples ms\<close> and the end 0, \<open>stop_samples\<close> gets the same count,
  \<open>queued_tight\<close> is cleared, and \<open>playing_tight\<close> is cleared exactly when nothing is
  queued. The start of the fade is what \<open>get_interpolate\<close> gives on the fade whose \<open>done\<close>
  and \<open>duration\<close> are already overwritten.
\<close>

lemma RPS_fadeout_effect:
  assumes "check_channel ok ch st = (0, st1)"
  shows "ms = 0 \<Longrightarrow>
           RPS_fadeout rnd ok ch ms st =
             (set_chan (unat ch) ((channels st1 ! unat ch)\<lparr>stop_samples := 0\<rparr>) st1)
               \<lparr>RPS_error := SUCCESS\<rparr>"
    and "ms \<noteq> 0 \<Longrightarrow>
           channels (RPS_fadeout rnd ok ch ms st) ! unat ch =
             (channels st1 ! unat ch)
               \<lparr>fade := \<lparr>i_done = 0, i_duration = ms_to_samples (freq st1) ms,
                   i_start = fst (get_interpolate rnd
                     ((fade (channels st1 ! unat ch))
                        \<lparr>i_done := 0, i_duration := ms_to_samples (freq st1) ms\<rparr>)),
                   i_end = 0\<rparr>,
                 stop_samples := ms_to_samples (freq st1) ms,
                 queued_tight := 0,
                 playing_tight := (if queued (channels st1 ! unat ch) = None then 0
                                   else playing_tight (channels st1 ! unat ch))\<rparr>"
proof -
  note again = check_channel_again [OF assms]
  show "ms = 0 \<Longrightarrow>
           RPS_fadeout rnd ok ch ms st =
             (set_chan (unat ch) ((channels st1 ! unat ch)\<lparr>stop_samples := 0\<rparr>) st1)
               \<lparr>RPS_error := SUCCESS\<rparr>"
    using assms by (simp add: RPS_fadeout_def Let_def)
  assume "ms \<noteq> 0"
  with assms again(2) show "channels (RPS_fadeout rnd ok ch ms st) ! unat ch =
             (channels st1 ! unat ch)
               \<lparr>fade := \<lparr>i_done = 0, i_duration = ms_to_samples (freq st1) ms,
                   i_start = fst (get_interpolate rnd
                     ((fade (channels st1 ! unat ch))
                        \<lparr>i_done := 0, i_duration := ms_to_samples (freq st1) ms\<rparr>)),
                   i_end = 0\<rparr>,
                 stop_samples := ms_to_samples (freq st1) ms,
                 queued_tight := 0,
                 playing_tight := (if queued (channels st1 ! unat ch) = None then 0
                                   else playing_tight (channels st1 ! unat ch))\<rparr>"
    by (cases "fade (channels st1 ! unat ch)")
       (auto simp: RPS_fadeout_def Let_def get_interpolate_def split: prod.splits if_splits)
qed


end
